theory Spec2Isabelle
  imports Main "HOL-Library.AList" "HOL-Library.Sublist" "HOL-Library.Word"
begin

section \<open>The local tree\<close>

text \<open>
  Both scripts (\<^verbatim>\<open>hostgator/deploy-staging.py\<close> and
  \<^verbatim>\<open>hostgator/fix-mylzip-redirect.py\<close>) walk a local directory and replay it
  over an FTP session. The local file system is only read. A directory is the list of its
  entries in the order \<^verbatim>\<open>os.listdir\<close> yields them; a path of the program is
  modelled by the path string (used in messages only) together with what it denotes.
\<close>

type_synonym bytes = "8 word list"

datatype entry =
    RegFile bytes
  | BadFile
  | Directory "(string \<times> entry) list"
  | BadDir
  | Special
  | Denied

text \<open>
  \<open>RegFile b\<close> is a regular file with content \<open>b\<close>; \<open>BadFile\<close> a regular file
  whose \<^verbatim>\<open>open(..., 'rb')\<close> raises; \<open>BadDir\<close> a directory whose
  \<^verbatim>\<open>os.listdir\<close> raises; \<open>Special\<close> an entry for which both
  \<^verbatim>\<open>is_file()\<close> and \<^verbatim>\<open>is_dir()\<close> are false (a broken symlink, a
  socket, a device); \<open>Denied\<close> an entry whose \<^verbatim>\<open>stat\<close> fails with an error other than
  "not found" (no search permission on its directory, say). On such an entry
  \<^verbatim>\<open>os.path.isfile\<close> and \<^verbatim>\<open>os.path.isdir\<close> answer false, as they catch every
  \<^verbatim>\<open>OSError\<close>, while \<^verbatim>\<open>Path.is_file()\<close>, \<^verbatim>\<open>Path.is_dir()\<close> and
  \<^verbatim>\<open>Path.exists()\<close> raise it again.
\<close>

type_synonym local_path = "string \<times> entry"

datatype exn = error_perm string | OSError string

fun str_exn :: "exn \<Rightarrow> string" where
  "str_exn (error_perm m) = m"
| "str_exn (OSError m) = m"

fun isfile :: "entry \<Rightarrow> bool" where
  "isfile (RegFile b) = True"
| "isfile BadFile = True"
| "isfile e = False"

fun isdir :: "entry \<Rightarrow> bool" where
  "isdir (Directory es) = True"
| "isdir BadDir = True"
| "isdir e = False"

fun open_rb :: "entry \<Rightarrow> exn + bytes" where
  "open_rb (RegFile b) = Inr b"
| "open_rb e = Inl (OSError ''cannot open file'')"

fun listdir :: "entry \<Rightarrow> exn + (string \<times> entry) list" where
  "listdir (Directory es) = Inr es"
| "listdir e = Inl (OSError ''cannot list directory'')"

text \<open>The probes of \<^verbatim>\<open>pathlib\<close>, used by the top-level loops of both scripts.\<close>

fun is_file :: "entry \<Rightarrow> exn + bool" where
  "is_file Denied = Inl (OSError ''Permission denied'')"
| "is_file e = Inr (isfile e)"

fun is_dir :: "entry \<Rightarrow> exn + bool" where
  "is_dir Denied = Inl (OSError ''Permission denied'')"
| "is_dir e = Inr (isdir e)"

fun path_exists :: "entry \<Rightarrow> exn + bool" where
  "path_exists Denied = Inl (OSError ''Permission denied'')"
| "path_exists e = Inr True"

definition basename :: "string \<Rightarrow> string" where
  "basename p = rev (takeWhile (\<lambda>c. c \<noteq> CHR ''/'') (rev p))"

section \<open>The FTP session and the console\<close>

text \<open>
  The remote server is outside the repository. It is modelled as a store from paths
  (lists of components) to nodes, a current directory, and a predicate \<open>refused\<close>
  of the commands the server rejects for any reason of its own (permissions, a missing
  parent, a dropped connection). Besides that, \<^verbatim>\<open>MKD\<close> fails on a path that
  exists, \<^verbatim>\<open>CWD\<close> on a path that is not a directory, and \<^verbatim>\<open>STOR\<close> on a path
  that is a directory; a successful \<^verbatim>\<open>STOR\<close> overwrites. A command that fails
  raises in the client and leaves the server as it was. The lines printed by the
  program are collected in \<open>stdout\<close>.
\<close>

datatype rnode = RFile bytes | RDir

datatype cmd = CONNECT | LOGIN | PWD | CWD string | MKD string | NLST | STOR string | QUIT

record world =
  store :: "(string list \<times> rnode) list"
  cwd :: "string list"
  refused :: "cmd \<Rightarrow> bool"
  stdout :: "string list"

definition py_print :: "world \<Rightarrow> string \<Rightarrow> world" where
  "py_print w s = w\<lparr>stdout := stdout w @ [s]\<rparr>"

definition lookup :: "world \<Rightarrow> string list \<Rightarrow> rnode option" where
  "lookup w k = map_of (store w) k"

fun split_acc :: "string \<Rightarrow> string \<Rightarrow> string list" where
  "split_acc acc [] = (if acc = [] then [] else [acc])"
| "split_acc acc (c # cs) =
     (if c = CHR ''/'' then (if acc = [] then [] else [acc]) @ split_acc [] cs
      else split_acc (acc @ [c]) cs)"

definition split_path :: "string \<Rightarrow> string list" where
  "split_path p = split_acc [] p"

definition resolve :: "world \<Rightarrow> string \<Rightarrow> string list" where
  "resolve w p =
     (case p of [] \<Rightarrow> cwd w
      | c # cs \<Rightarrow> if c = CHR ''/'' then split_path p else cwd w @ split_path p)"

fun join_path :: "string list \<Rightarrow> string" where
  "join_path [] = ''/''"
| "join_path [n] = ''/'' @ n"
| "join_path (n # ns) = ''/'' @ n @ join_path ns"

definition ftp_connect :: "world \<Rightarrow> exn + world" where
  "ftp_connect w = (if refused w CONNECT then Inl (OSError ''connection failed'') else Inr w)"

definition ftp_login :: "world \<Rightarrow> exn + world" where
  "ftp_login w = (if refused w LOGIN then Inl (error_perm ''530 Login incorrect'') else Inr w)"

definition ftp_pwd :: "world \<Rightarrow> exn + string" where
  "ftp_pwd w = (if refused w PWD then Inl (error_perm ''550 PWD failed'')
                else Inr (join_path (cwd w)))"

definition ftp_cwd :: "world \<Rightarrow> string \<Rightarrow> exn + world" where
  "ftp_cwd w p =
     (if refused w (CWD p) then Inl (error_perm ''550 CWD refused'')
      else if resolve w p \<noteq> [] \<and> lookup w (resolve w p) \<noteq> Some RDir
      then Inl (error_perm ''550 No such directory'')
      else Inr (w\<lparr>cwd := resolve w p\<rparr>))"

definition ftp_mkd :: "world \<Rightarrow> string \<Rightarrow> exn + world" where
  "ftp_mkd w p =
     (if refused w (MKD p) then Inl (error_perm ''550 MKD refused'')
      else if resolve w p = [] \<or> lookup w (resolve w p) \<noteq> None
      then Inl (error_perm ''550 File exists'')
      else Inr (w\<lparr>store := AList.update (resolve w p) RDir (store w)\<rparr>))"

definition ftp_nlst :: "world \<Rightarrow> exn + string list" where
  "ftp_nlst w =
     (if refused w NLST then Inl (error_perm ''550 No files found'')
      else Inr (map (\<lambda>kv. last (fst kv))
                  (filter (\<lambda>kv. fst kv \<noteq> [] \<and> butlast (fst kv) = cwd w) (store w))))"

definition ftp_storbinary :: "world \<Rightarrow> string \<Rightarrow> bytes \<Rightarrow> exn + world" where
  "ftp_storbinary w p f =
     (if refused w (STOR p) then Inl (error_perm ''550 STOR refused'')
      else if resolve w p = [] \<or> lookup w (resolve w p) = Some RDir
      then Inl (error_perm ''550 Is a directory'')
      else Inr (w\<lparr>store := AList.update (resolve w p) (RFile f) (store w)\<rparr>))"

definition ftp_quit :: "world \<Rightarrow> exn + world" where
  "ftp_quit w = (if refused w QUIT then Inl (OSError ''connection lost'') else Inr w)"

section \<open>deploy-staging.py\<close>

definition config_remote_path :: string where
  "config_remote_path = ''/public_html/website_1a41642e''"

text \<open>\<^verbatim>\<open>upload_file(ftp, local_file, remote_file)\<close>, lines 17 to 27.\<close>

definition upload_file :: "world \<Rightarrow> local_path \<Rightarrow> string \<Rightarrow> bool \<times> world" where
  "upload_file w local_file remote_file =
     (case open_rb (snd local_file) of
        Inl e \<Rightarrow>
          (False, py_print w (''   [ERROR] Failed to upload '' @ fst local_file @ '': '' @ str_exn e))
      | Inr f \<Rightarrow>
          let w1 = py_print w (''   [FILE] Uploading '' @ basename (fst local_file) @ ''...'') in
          (case ftp_storbinary w1 remote_file f of
             Inl e \<Rightarrow>
               (False,
                py_print w1 (''   [ERROR] Failed to upload '' @ fst local_file @ '': '' @ str_exn e))
           | Inr w2 \<Rightarrow>
               (True,
                py_print w2 (''   [OK] '' @ basename (fst local_file) @ '' uploaded successfully''))))"

text \<open>
  \<^verbatim>\<open>upload_directory(ftp, local_dir, remote_dir)\<close>, lines 29 to 48; \<open>upload_items\<close>
  is its \<^verbatim>\<open>for item in os.listdir(local_dir)\<close> loop, lines 36 to 43, which drops the
  results of the calls it makes.
\<close>

fun upload_directory :: "world \<Rightarrow> local_path \<Rightarrow> string \<Rightarrow> bool \<times> world"
  and upload_items :: "world \<Rightarrow> string \<Rightarrow> string \<Rightarrow> (string \<times> entry) list \<Rightarrow> world"
where
  "upload_directory w (local_dir, d) remote_dir =
     (let w1 = py_print w (''   [DIR] Uploading directory '' @ basename local_dir @ ''...'') in
      case ftp_mkd w1 remote_dir of
        Inl e \<Rightarrow>
          (False,
           py_print w1 (''   [ERROR] Failed to upload directory '' @ local_dir @ '': '' @ str_exn e))
      | Inr w2 \<Rightarrow>
          let w3 = py_print w2 (''   [OK] Created remote directory '' @ remote_dir) in
          (case d of
             Directory es \<Rightarrow> (True, upload_items w3 local_dir remote_dir es)
           | _ \<Rightarrow>
               (False,
                py_print w3 (''   [ERROR] Failed to upload directory '' @ local_dir @ '': ''
                   @ ''cannot list directory''))))"
| "upload_items w local_dir remote_dir [] = w"
| "upload_items w local_dir remote_dir ((item, e) # es) =
     (let local_path = (local_dir @ ''/'' @ item, e);
          remote_path = remote_dir @ ''/'' @ item
      in upload_items
           (if isfile e then snd (upload_file w local_path remote_path)
            else if isdir e then snd (upload_directory w local_path remote_path)
            else w)
           local_dir remote_dir es)"

text \<open>
  The loop of \<^verbatim>\<open>deploy\<close>, lines 90 to 102. The loop state is
  \<open>(success_count, total_count, w)\<close>; \<open>deploy_item\<close> is one iteration. The probes
  \<^verbatim>\<open>is_file()\<close> and \<^verbatim>\<open>is_dir()\<close> are outside every \<^verbatim>\<open>try\<close> of the loop: when
  one raises, the loop is left with \<open>Inl\<close> of the exception and the loop state at that
  moment, and the exception goes to the outer handler of \<^verbatim>\<open>deploy\<close>.
\<close>

type_synonym loop_state = "nat \<times> nat \<times> world"

fun deploy_item :: "string \<Rightarrow> loop_state \<Rightarrow> string \<times> entry \<Rightarrow> exn \<times> loop_state + loop_state" where
  "deploy_item local_path (success_count, total_count, w) (item, e) =
     (let local_item_path = (local_path @ ''/'' @ item, e);
          total_count = total_count + 1
      in case is_file e of
           Inl ex \<Rightarrow> Inl (ex, success_count, total_count, w)
         | Inr file \<Rightarrow>
             if file then
               (case upload_file w local_item_path item of
                  (ok, w') \<Rightarrow> Inr (if ok then success_count + 1 else success_count, total_count, w'))
             else
               (case is_dir e of
                  Inl ex \<Rightarrow> Inl (ex, success_count, total_count, w)
                | Inr dir \<Rightarrow>
                    if dir then
                      (case upload_directory w local_item_path item of
                         (ok, w') \<Rightarrow>
                           Inr (if ok then success_count + 1 else success_count, total_count, w'))
                    else Inr (success_count, total_count, w)))"

fun deploy_loop :: "string \<Rightarrow> loop_state \<Rightarrow> (string \<times> entry) list \<Rightarrow> exn \<times> loop_state + loop_state" where
  "deploy_loop local_path acc [] = Inr acc"
| "deploy_loop local_path acc (x # xs) =
     (case deploy_item local_path acc x of
        Inl r \<Rightarrow> Inl r
      | Inr acc' \<Rightarrow> deploy_loop local_path acc' xs)"

definition digit :: "nat \<Rightarrow> char" where
  "digit n = ''0123456789'' ! (n mod 10)"

function str_nat :: "nat \<Rightarrow> string" where
  "str_nat n = (if n < 10 then [digit n] else str_nat (n div 10) @ [digit n])"
  by pat_completeness auto
termination
  by (relation "measure id") auto

definition print_files :: "world \<Rightarrow> string list \<Rightarrow> world" where
  "print_files w files = foldl (\<lambda>w file. py_print w (''   [FILE] '' @ file)) w files"

text \<open>
  The body of the outer \<^verbatim>\<open>try\<close> of \<^verbatim>\<open>deploy\<close>, lines 55 to 121, in four parts. A part
  that can raise returns \<open>Inl (e, w)\<close>: the exception and the world at the moment it is
  raised.
\<close>

definition connect_phase :: "world \<Rightarrow> exn \<times> world + world" where
  "connect_phase w =
     (let w1 = py_print w ''[CONNECT] Connecting to Hostgator for zaido.org staging deployment...'' in
      case ftp_connect w1 of
        Inl e \<Rightarrow> Inl (e, w1)
      | Inr w2 \<Rightarrow>
          (case ftp_login w2 of
             Inl e \<Rightarrow> Inl (e, w2)
           | Inr w3 \<Rightarrow>
               (let w4 = py_print w3 ''[OK] Connected successfully!'' in
                case ftp_pwd w4 of
                  Inl e \<Rightarrow> Inl (e, w4)
                | Inr d \<Rightarrow> Inr (py_print w4 (''[DIR] Current directory: '' @ d)))))"

definition navigate :: "world \<Rightarrow> exn \<times> world + world" where
  "navigate w =
     (case ftp_cwd w config_remote_path of
        Inr w1 \<Rightarrow> Inr w1
      | Inl _ \<Rightarrow>
          (case ftp_mkd w config_remote_path of
             Inl e \<Rightarrow> Inl (e, w)
           | Inr w1 \<Rightarrow>
               (case ftp_cwd w1 config_remote_path of
                  Inl e \<Rightarrow> Inl (e, w1)
                | Inr w2 \<Rightarrow> Inr w2)))"

definition navigate_phase :: "world \<Rightarrow> exn \<times> world + world" where
  "navigate_phase w =
     (let w1 = py_print w (''[NAV] Navigating to '' @ config_remote_path @ ''...'') in
      case navigate w1 of
        Inl ew \<Rightarrow> Inl ew
      | Inr w2 \<Rightarrow>
          (case ftp_pwd w2 of
             Inl e \<Rightarrow> Inl (e, w2)
           | Inr d \<Rightarrow> Inr (py_print w2 (''[OK] Now in directory: '' @ d))))"

definition list_current :: "world \<Rightarrow> world" where
  "list_current w =
     (let w1 = py_print w (CHR 0x0A # ''[LIST] Current files in zaido.org directory:'') in
      case ftp_nlst w1 of
        Inr files \<Rightarrow> print_files w1 files
      | Inl e \<Rightarrow> py_print w1 (''   [ERROR] Could not list files: '' @ str_exn e))"

definition list_final :: "world \<Rightarrow> world" where
  "list_final w =
     (let w1 = py_print w (CHR 0x0A # ''[LIST] Final files in zaido.org directory:'') in
      case ftp_nlst w1 of
        Inr files \<Rightarrow>
          (let w2 = print_files w1 files in
           if ''index.html'' \<in> set files
           then py_print w2 (CHR 0x0A # ''[OK] index.html found - zaido.org deployment looks good!'')
           else py_print w2 (CHR 0x0A # ''[WARN] Warning: index.html not found in uploaded files''))
      | Inl e \<Rightarrow> py_print w1 (''   [ERROR] Could not list final files: '' @ str_exn e))"

text \<open>
  \<open>local_path\<close> is the resolved path of \<^verbatim>\<open>./staging-deploy\<close> and \<open>root\<close> what is
  there: \<open>None\<close> when the path does not exist, so that \<^verbatim>\<open>exists()\<close> is false.
\<close>

definition upload_phase :: "world \<Rightarrow> string \<Rightarrow> entry option \<Rightarrow> exn \<times> world + bool \<times> world" where
  "upload_phase w local_path root =
     (let w1 = py_print w (CHR 0x0A # ''[UPLOAD] Uploading files to zaido.org directory...'') in
      case root of
        None \<Rightarrow> Inr (False, py_print w1 (''[ERROR] Local path '' @ local_path @ '' does not exist!''))
      | Some d \<Rightarrow>
          (case path_exists d of
             Inl e \<Rightarrow> Inl (e, w1)
           | Inr found \<Rightarrow>
               (case listdir d of
                  Inl e \<Rightarrow> Inl (e, w1)
                | Inr es \<Rightarrow>
                    (case deploy_loop local_path (0, 0, w1) es of
                       Inl (e, success_count, total_count, w2) \<Rightarrow> Inl (e, w2)
                     | Inr (success_count, total_count, w2) \<Rightarrow>
                         Inr (True,
                           list_final
                             (py_print w2
                                (CHR 0x0A # ''[OK] Uploaded '' @ str_nat success_count @ ''/''
                                   @ str_nat total_count @ '' items successfully!'')))))))"

definition deploy_try :: "world \<Rightarrow> string \<Rightarrow> entry option \<Rightarrow> exn \<times> world + bool \<times> world" where
  "deploy_try w local_path root =
     (case connect_phase w of
        Inl ew \<Rightarrow> Inl ew
      | Inr w1 \<Rightarrow>
          (case navigate_phase w1 of
             Inl ew \<Rightarrow> Inl ew
           | Inr w2 \<Rightarrow> upload_phase (list_current w2) local_path root))"

text \<open>\<^verbatim>\<open>deploy()\<close>, lines 50 to 130: the \<^verbatim>\<open>try\<close>, its handler and the \<^verbatim>\<open>finally\<close>.\<close>

definition finally_quit :: "world \<Rightarrow> world" where
  "finally_quit w = (case ftp_quit w of Inl e \<Rightarrow> w | Inr w1 \<Rightarrow> w1)"

definition deploy :: "world \<Rightarrow> string \<Rightarrow> entry option \<Rightarrow> bool \<times> world" where
  "deploy w local_path root =
     (case deploy_try w local_path root of
        Inr (r, w1) \<Rightarrow> (r, finally_quit w1)
      | Inl (e, w1) \<Rightarrow>
          (False, finally_quit (py_print w1 (''[ERROR] Deployment failed: '' @ str_exn e))))"

text \<open>The script's main block, lines 132 to 143; the result is the process exit code.\<close>

definition main :: "world \<Rightarrow> string \<Rightarrow> entry option \<Rightarrow> nat \<times> world" where
  "main w local_path root =
     (let w1 = py_print w ''[START] zaido.org staging deployment script starting...'' in
      case deploy w1 local_path root of
        (success, w2) \<Rightarrow>
          if success then
            (0, py_print
                  (py_print w2 (CHR 0x0A # ''[SUCCESS] zaido.org staging deployment completed successfully!''))
                  ''[URL] Your site should be live at: https://zaido.org'')
          else (1, py_print w2 (CHR 0x0A # ''[FAILED] Deployment failed!'')))"

section \<open>fix-mylzip-redirect.py\<close>

definition fix_remote_path :: string where
  "fix_remote_path = ''/public_html/website_0f1108f2''"

text \<open>
  The inner loop of \<^verbatim>\<open>fix_mylzip_redirect\<close>, lines 83 to 87: the files directly inside
  a top-level directory. Nothing is caught here, so the first failure (of the probe, of
  \<^verbatim>\<open>open\<close> or of the transmission) leaves the loop.
\<close>

fun fix_subitems :: "world \<Rightarrow> string \<Rightarrow> (string \<times> entry) list \<Rightarrow> exn \<times> world + world" where
  "fix_subitems w item [] = Inr w"
| "fix_subitems w item ((subitem, e) # es) =
     (case is_file e of
        Inl ex \<Rightarrow> Inl (ex, w)
      | Inr file \<Rightarrow>
          if file then
            (case open_rb e of
               Inl ex \<Rightarrow> Inl (ex, w)
             | Inr f \<Rightarrow>
                 (case ftp_storbinary w (item @ ''/'' @ subitem) f of
                    Inl ex \<Rightarrow> Inl (ex, w)
                  | Inr w1 \<Rightarrow> fix_subitems w1 item es))
          else fix_subitems w item es)"

text \<open>One iteration of the loop at lines 64 to 91, and the loop.\<close>

fun fix_item :: "loop_state \<Rightarrow> string \<times> entry \<Rightarrow> exn \<times> loop_state + loop_state" where
  "fix_item (success_count, total_count, w) (item, e) =
     (let total_count = total_count + 1
      in case is_file e of
           Inl ex \<Rightarrow> Inl (ex, success_count, total_count, w)
         | Inr file \<Rightarrow>
             if file then
               (case open_rb e of
                  Inl ex \<Rightarrow>
                    Inr (success_count, total_count,
                         py_print w (''   [ERROR] Failed to upload '' @ item @ '': '' @ str_exn ex))
                | Inr f \<Rightarrow>
                    (let w1 = py_print w (''   [FILE] Uploading '' @ item @ ''...'') in
                     case ftp_storbinary w1 item f of
                       Inl ex \<Rightarrow>
                         Inr (success_count, total_count,
                              py_print w1
                                (''   [ERROR] Failed to upload '' @ item @ '': '' @ str_exn ex))
                     | Inr w2 \<Rightarrow>
                         Inr (success_count + 1, total_count,
                              py_print w2 (''   [OK] '' @ item @ '' uploaded successfully''))))
             else
               (case is_dir e of
                  Inl ex \<Rightarrow> Inl (ex, success_count, total_count, w)
                | Inr dir \<Rightarrow>
                    if dir then
                      (let w1 = py_print w (''   [DIR] Uploading directory '' @ item @ ''...'') in
                       case ftp_mkd w1 item of
                         Inl ex \<Rightarrow>
                           Inr (success_count, total_count,
                                py_print w1
                                  (''   [ERROR] Failed to upload directory '' @ item @ '': ''
                                     @ str_exn ex))
                       | Inr w2 \<Rightarrow>
                           (case listdir e of
                              Inl ex \<Rightarrow>
                                Inr (success_count, total_count,
                                     py_print w2
                                       (''   [ERROR] Failed to upload directory '' @ item @ '': ''
                                          @ str_exn ex))
                            | Inr es \<Rightarrow>
                                (case fix_subitems w2 item es of
                                   Inl (ex, w3) \<Rightarrow>
                                     Inr (success_count, total_count,
                                          py_print w3
                                            (''   [ERROR] Failed to upload directory '' @ item
                                               @ '': '' @ str_exn ex))
                                 | Inr w3 \<Rightarrow>
                                     Inr (success_count + 1, total_count,
                                          py_print w3
                                            (''   [OK] Directory '' @ item
                                               @ '' uploaded successfully'')))))
                    else Inr (success_count, total_count, w)))"

fun fix_loop :: "loop_state \<Rightarrow> (string \<times> entry) list \<Rightarrow> exn \<times> loop_state + loop_state" where
  "fix_loop acc [] = Inr acc"
| "fix_loop acc (x # xs) =
     (case fix_item acc x of
        Inl r \<Rightarrow> Inl r
      | Inr acc' \<Rightarrow> fix_loop acc' xs)"

text \<open>
  The body of the outer \<^verbatim>\<open>try\<close> of \<^verbatim>\<open>fix_mylzip_redirect\<close>, lines 21 to 110. A
  \<^verbatim>\<open>return False\<close> inside it is \<open>Inr (False, w)\<close>; an exception that reaches the outer
  handler is \<open>Inl (e, w)\<close>.
\<close>

definition fix_connect_phase :: "world \<Rightarrow> exn \<times> world + world" where
  "fix_connect_phase w =
     (let w1 = py_print w ''[CONNECT] Connecting to Hostgator...'' in
      case ftp_connect w1 of
        Inl e \<Rightarrow> Inl (e, w1)
      | Inr w2 \<Rightarrow>
          (case ftp_login w2 of
             Inl e \<Rightarrow> Inl (e, w2)
           | Inr w3 \<Rightarrow>
               (let w4 = py_print w3 ''[OK] Connected successfully!'' in
                case ftp_pwd w4 of
                  Inl e \<Rightarrow> Inl (e, w4)
                | Inr d \<Rightarrow> Inr (py_print w4 (''[DIR] Current directory: '' @ d)))))"

definition fix_list_final :: "world \<Rightarrow> world" where
  "fix_list_final w =
     (let w1 = py_print w (CHR 0x0A # ''[LIST] Final files in myl.zip directory:'') in
      case ftp_nlst w1 of
        Inr files \<Rightarrow>
          (let w2 = print_files w1 files in
           if ''index.html'' \<in> set files
           then py_print w2 (CHR 0x0A # ''[OK] index.html found - myl.zip should now work correctly!'')
           else py_print w2 (CHR 0x0A # ''[WARN] index.html not found in uploaded files''))
      | Inl e \<Rightarrow> py_print w1 (''   [ERROR] Could not list final files: '' @ str_exn e))"

definition fix_upload_phase :: "world \<Rightarrow> string \<Rightarrow> entry option \<Rightarrow> exn \<times> world + bool \<times> world" where
  "fix_upload_phase w local_path_obj root =
     (let w1 = py_print w (CHR 0x0A # ''[UPLOAD] Uploading correct files...'') in
      case root of
        None \<Rightarrow>
          Inr (False, py_print w1 (''[ERROR] Local path '' @ local_path_obj @ '' does not exist!''))
      | Some d \<Rightarrow>
          (case path_exists d of
             Inl e \<Rightarrow> Inl (e, w1)
           | Inr found \<Rightarrow>
               (case listdir d of
                  Inl e \<Rightarrow> Inl (e, w1)
                | Inr es \<Rightarrow>
                    (case fix_loop (0, 0, w1) es of
                       Inl (e, success_count, total_count, w2) \<Rightarrow> Inl (e, w2)
                     | Inr (success_count, total_count, w2) \<Rightarrow>
                         Inr (True,
                           fix_list_final
                             (py_print w2
                                (CHR 0x0A # ''[OK] Uploaded '' @ str_nat success_count @ ''/''
                                   @ str_nat total_count @ '' items successfully!'')))))))"

definition fix_try :: "world \<Rightarrow> string \<Rightarrow> entry option \<Rightarrow> exn \<times> world + bool \<times> world" where
  "fix_try w local_path_obj root =
     (case fix_connect_phase w of
        Inl ew \<Rightarrow> Inl ew
      | Inr w1 \<Rightarrow>
          (let w2 = py_print w1 (''[NAV] Navigating to '' @ fix_remote_path @ ''...'') in
           case ftp_cwd w2 fix_remote_path of
             Inl e \<Rightarrow> Inr (False, py_print w2 (''[ERROR] Could not navigate to '' @ fix_remote_path))
           | Inr w3 \<Rightarrow>
               (case ftp_pwd w3 of
                  Inl e \<Rightarrow> Inl (e, w3)
                | Inr d \<Rightarrow>
                    (let w4 = py_print w3 (''[OK] Now in directory: '' @ d);
                         w5 = py_print w4 (CHR 0x0A # ''[LIST] Current files in myl.zip directory:'')
                     in case ftp_nlst w5 of
                          Inl e \<Rightarrow>
                            Inr (False,
                                 py_print w5 (''   [ERROR] Could not list files: '' @ str_exn e))
                        | Inr files \<Rightarrow>
                            (let w6 = print_files w5 files;
                                 w7 = (if ''index.html'' \<in> set files
                                       then py_print
                                              (py_print w6
                                                 (CHR 0x0A #
                                                  ''[INFO] Found index.html - this might be causing the redirect''))
                                              ''[INFO] We will overwrite it with the correct content''
                                       else w6)
                             in fix_upload_phase w7 local_path_obj root)))))"

text \<open>\<^verbatim>\<open>fix_mylzip_redirect()\<close>, lines 7 to 119, and the main block, lines 121 to 133.\<close>

definition fix_mylzip_redirect :: "world \<Rightarrow> string \<Rightarrow> entry option \<Rightarrow> bool \<times> world" where
  "fix_mylzip_redirect w local_path_obj root =
     (case fix_try w local_path_obj root of
        Inr (r, w1) \<Rightarrow> (r, finally_quit w1)
      | Inl (e, w1) \<Rightarrow> (False, finally_quit (py_print w1 (''[ERROR] Fix failed: '' @ str_exn e))))"

definition fix_main :: "world \<Rightarrow> string \<Rightarrow> entry option \<Rightarrow> nat \<times> world" where
  "fix_main w local_path_obj root =
     (let w1 = py_print w ''[START] Fixing myl.zip redirect issue...'' in
      case fix_mylzip_redirect w1 local_path_obj root of
        (success, w2) \<Rightarrow>
          if success then
            (0, py_print
                  (py_print
                     (py_print w2 (CHR 0x0A # ''[SUCCESS] myl.zip redirect fix completed!''))
                     ''[URL] Your site should now be live at: https://myl.zip'')
                  ''[NOTE] Clear your browser cache or try incognito mode if you still see redirects'')
          else (1, py_print w2 (CHR 0x0A # ''[FAILED] Fix failed!'')))"

section \<open>Notions of the specification\<close>

text \<open>
  The loop state read as the specification's \<open>UploadResult\<close>: \<open>total_count\<close> is
  \<open>attempted\<close> and \<open>success_count\<close> is \<open>succeeded\<close>. They are read off the state in
  which the loop ended, or in which it was left by an exception.
\<close>

definition loop_state :: "exn \<times> loop_state + loop_state \<Rightarrow> loop_state" where
  "loop_state r = (case r of Inl x \<Rightarrow> snd x | Inr st \<Rightarrow> st)"

definition succeeded :: "exn \<times> loop_state + loop_state \<Rightarrow> nat" where
  "succeeded r = fst (loop_state r)"

definition attempted :: "exn \<times> loop_state + loop_state \<Rightarrow> nat" where
  "attempted r = fst (snd (loop_state r))"

definition final_world :: "exn \<times> loop_state + loop_state \<Rightarrow> world" where
  "final_world r = snd (snd (loop_state r))"

definition raises :: "'e + 'a \<Rightarrow> bool" where
  "raises r = (case r of Inl e \<Rightarrow> True | Inr v \<Rightarrow> False)"

text \<open>
  A local file that cannot be read, in the words of the specification: its \<^verbatim>\<open>open\<close>
  raises, or its transmission to \<open>remote_file\<close> raises in the session state \<open>w\<close>.
\<close>

definition unreadable :: "world \<Rightarrow> entry \<Rightarrow> string \<Rightarrow> bool" where
  "unreadable w e remote_file =
     (case open_rb e of Inl ex \<Rightarrow> True | Inr f \<Rightarrow> raises (ftp_storbinary w remote_file f))"

text \<open>The number of entries of a tree, at every depth.\<close>

fun count_entry :: "entry \<Rightarrow> nat"
  and count_entries :: "(string \<times> entry) list \<Rightarrow> nat"
where
  "count_entry (Directory es) = count_entries es"
| "count_entry e = 0"
| "count_entries [] = 0"
| "count_entries ((n, e) # es) = 1 + count_entry e + count_entries es"

text \<open>
  What \<^verbatim>\<open>os.listdir\<close> can return: names are not empty, hold no slash, and do not repeat
  within one directory.
\<close>

definition wf_name :: "string \<Rightarrow> bool" where
  "wf_name n = (n \<noteq> [] \<and> CHR ''/'' \<notin> set n)"

fun wf_entry :: "entry \<Rightarrow> bool"
  and wf_entries :: "(string \<times> entry) list \<Rightarrow> bool"
where
  "wf_entry (Directory es) = wf_entries es"
| "wf_entry e = True"
| "wf_entries [] = True"
| "wf_entries ((n, e) # es) = (wf_name n \<and> n \<notin> fst ` set es \<and> wf_entry e \<and> wf_entries es)"

text \<open>
  A tree without local per-item failures: every entry can be probed, every file opens and
  every directory lists.
\<close>

fun readable_entry :: "entry \<Rightarrow> bool"
  and readable_entries :: "(string \<times> entry) list \<Rightarrow> bool"
where
  "readable_entry (Directory es) = readable_entries es"
| "readable_entry BadFile = False"
| "readable_entry BadDir = False"
| "readable_entry Denied = False"
| "readable_entry e = True"
| "readable_entries [] = True"
| "readable_entries ((n, e) # es) = (readable_entry e \<and> readable_entries es)"

text \<open>A server without remote per-item failures, and a remote root with nothing below it.\<close>

definition accepting :: "world \<Rightarrow> bool" where
  "accepting w = (\<forall>c. \<not> refused w c)"

definition remote_empty :: "world \<Rightarrow> bool" where
  "remote_empty w = (\<forall>k \<in> fst ` set (store w). \<not> strict_prefix (cwd w) k)"

text \<open>
  The entry of a local tree at a path of names, and the remote node that stands for an
  entry: a file with the same bytes, a directory, or nothing for what is neither.
\<close>

fun local_lookup :: "(string \<times> entry) list \<Rightarrow> string list \<Rightarrow> entry option" where
  "local_lookup es [] = None"
| "local_lookup es (n # ns) =
     (case map_of es n of
        None \<Rightarrow> None
      | Some e \<Rightarrow>
          if ns = [] then Some e
          else (case e of Directory cs \<Rightarrow> local_lookup cs ns | _ \<Rightarrow> None))"

fun remote_node_of :: "entry \<Rightarrow> rnode option" where
  "remote_node_of (RegFile b) = Some (RFile b)"
| "remote_node_of (Directory es) = Some RDir"
| "remote_node_of e = None"

definition remote_image :: "(string \<times> entry) list \<Rightarrow> string list \<Rightarrow> rnode option" where
  "remote_image es ps = (case local_lookup es ps of None \<Rightarrow> None | Some e \<Rightarrow> remote_node_of e)"

text \<open>
  Two worlds with the same server: the same store and current directory, and the same
  answer to every command but \<^verbatim>\<open>NLST\<close>. What was printed is not compared.
\<close>

definition same_server :: "world \<Rightarrow> world \<Rightarrow> bool" where
  "same_server w w' =
     (store w = store w' \<and> cwd w = cwd w' \<and> (\<forall>c. c \<noteq> NLST \<longrightarrow> refused w c = refused w' c))"

text \<open>
  The image of a local tree below a remote directory \<open>k\<close>, as a map from remote paths to
  nodes: what a complete copy of the tree puts on the server.
\<close>

fun image_entry :: "string list \<Rightarrow> entry \<Rightarrow> (string list \<rightharpoonup> rnode)"
  and image_entries :: "string list \<Rightarrow> (string \<times> entry) list \<Rightarrow> (string list \<rightharpoonup> rnode)"
where
  "image_entry k (RegFile b) = [k \<mapsto> RFile b]"
| "image_entry k (Directory es) = [k \<mapsto> RDir] ++ image_entries k es"
| "image_entry k e = Map.empty"
| "image_entries k [] = Map.empty"
| "image_entries k ((n, e) # es) = image_entry (k @ [n]) e ++ image_entries k es"

text \<open>A remote path that is taken from the current directory.\<close>

definition relative :: "string \<Rightarrow> bool" where
  "relative p = (p \<noteq> [] \<and> hd p \<noteq> CHR ''/'')"

text \<open>
  A local tree cut after the files of its top-level directories: the part of a tree that
  \<^verbatim>\<open>fix-mylzip-redirect.py\<close> looks at.
\<close>

fun first_level :: "entry \<Rightarrow> entry" where
  "first_level (Directory es) = Directory (filter (\<lambda>x. isfile (snd x)) es)"
| "first_level e = e"

definition two_levels :: "(string \<times> entry) list \<Rightarrow> (string \<times> entry) list" where
  "two_levels es = map (\<lambda>x. (fst x, first_level (snd x))) es"

text \<open>
  \<open>uploaded w w' m\<close>: from \<open>w\<close> to \<open>w'\<close> the store gained exactly the map \<open>m\<close>, and the
  session is otherwise the same. \<open>vacant w k\<close>: the store of \<open>w\<close> has nothing at or below
  the path \<open>k\<close>.
\<close>

definition uploaded :: "world \<Rightarrow> world \<Rightarrow> (string list \<rightharpoonup> rnode) \<Rightarrow> bool" where
  "uploaded w w' m = (lookup w' = lookup w ++ m \<and> cwd w' = cwd w \<and> refused w' = refused w)"

definition vacant :: "world \<Rightarrow> string list \<Rightarrow> bool" where
  "vacant w k = (\<forall>x. lookup w x \<noteq> None \<longrightarrow> \<not> prefix k x)"

section \<open>Example inputs\<close>

definition no_refusal :: "cmd \<Rightarrow> bool" where
  "no_refusal c = False"

definition site_root :: "string list" where
  "site_root = [''public_html'', ''website_1a41642e'']"

text \<open>A session that has navigated into an empty remote root.\<close>

definition empty_site :: world where
  "empty_site = \<lparr>store = [(site_root, RDir)], cwd = site_root, refused = no_refusal, stdout = []\<rparr>"

text \<open>The first scenario of the specification: \<^verbatim>\<open>{index.html, assets/style.css}\<close>.\<close>

definition site_tree :: "(string \<times> entry) list" where
  "site_tree =
     [(''index.html'', RegFile [60, 104, 62]),
      (''assets'', Directory [(''style.css'', RegFile [97, 123, 125])])]"

text \<open>A root with a page and a dangling symbolic link.\<close>

definition link_tree :: "(string \<times> entry) list" where
  "link_tree = [(''index.html'', RegFile [60, 104, 62]), (''latest'', Special)]"

text \<open>A directory whose only file cannot be opened.\<close>

definition broken_assets :: entry where
  "broken_assets = Directory [(''style.css'', BadFile)]"

definition local_root :: string where
  "local_root = ''/srv/staging-deploy''"

text \<open>A server on which nothing exists yet, before the connection.\<close>

definition fresh_server :: world where
  "fresh_server = \<lparr>store = [], cwd = [], refused = no_refusal, stdout = []\<rparr>"

text \<open>
  A server that holds the (empty) remote root of \<^verbatim>\<open>fix-mylzip-redirect.py\<close>, once
  answering every command and once refusing \<^verbatim>\<open>NLST\<close> only.
\<close>

definition fix_root :: "string list" where
  "fix_root = [''public_html'', ''website_0f1108f2'']"

definition refuse_nlst :: "cmd \<Rightarrow> bool" where
  "refuse_nlst c = (c = NLST)"


definition fix_site_no_listing :: world where
  "fix_site_no_listing =
     \<lparr>store = [(fix_root, RDir)], cwd = [], refused = refuse_nlst, stdout = []\<rparr>"

text \<open>A server on which nothing exists and that refuses to create the remote root.\<close>

definition refuse_mkd_root :: "cmd \<Rightarrow> bool" where
  "refuse_mkd_root c = (c = MKD config_remote_path)"

definition locked_server :: world where
  "locked_server = \<lparr>store = [], cwd = [], refused = refuse_mkd_root, stdout = []\<rparr>"


text \<open>The remote root of a second deployment: \<^verbatim>\<open>assets\<close> is already there.\<close>

definition site_with_assets :: world where
  "site_with_assets =
     \<lparr>store = [(site_root, RDir), (site_root @ [''assets''], RDir)], cwd = site_root,
      refused = no_refusal, stdout = []\<rparr>"

text \<open>The second scenario of the specification: \<^verbatim>\<open>b.txt\<close> cannot be read.\<close>

definition two_files_tree :: "(string \<times> entry) list" where
  "two_files_tree = [(''a.txt'', RegFile [97]), (''b.txt'', BadFile)]"


text \<open>A file two directories below the root.\<close>

definition deep_tree :: "(string \<times> entry) list" where
  "deep_tree = [(''a'', Directory [(''b'', Directory [(''c.txt'', RegFile [99])])])]"




text \<open>A root whose first entry cannot be probed.\<close>

definition denied_tree :: "(string \<times> entry) list" where
  "denied_tree = [(''private'', Denied), (''a.txt'', RegFile [97])]"

section \<open>Properties: the counters of the top-level loops\<close>

text \<open>
  The equations of the loop bodies are long; they are unfolded only where a proof says so.
\<close>

declare upload_directory.simps [simp del]
declare deploy_item.simps [simp del]
declare fix_item.simps [simp del]

lemma raises_Inl [simp]: "raises (Inl e)"
  by (simp add: raises_def)

lemma raises_Inr [simp]: "\<not> raises (Inr v)"
  by (simp add: raises_def)

lemma counters_simps [simp]:
  "succeeded (Inl (ex, s, t, w)) = s" "attempted (Inl (ex, s, t, w)) = t"
  "final_world (Inl (ex, s, t, w)) = w"
  "succeeded (Inr (s, t, w)) = s" "attempted (Inr (s, t, w)) = t"
  "final_world (Inr (s, t, w)) = w"
  by (simp_all add: succeeded_def attempted_def final_world_def loop_state_def)

lemma probe_cases:
  "e = Denied \<Longrightarrow> is_file e = Inl (OSError ''Permission denied'')"
  "e = Denied \<Longrightarrow> is_dir e = Inl (OSError ''Permission denied'')"
  "e \<noteq> Denied \<Longrightarrow> is_file e = Inr (isfile e)"
  "e \<noteq> Denied \<Longrightarrow> is_dir e = Inr (isdir e)"
  by (cases e; simp)+

lemma raises_probe [simp]:
  "raises (is_file e) = (e = Denied)" "raises (is_dir e) = (e = Denied)"
  by (cases e; simp)+

text \<open>
  An iteration either ends, with \<open>total_count\<close> one more and \<open>success_count\<close> the same or
  one more, or is left by a probe that raises, with \<open>total_count\<close> one more and nothing
  else changed.
\<close>

lemma deploy_item_Inl:
  "deploy_item lp (s, t, w) x = Inl r \<Longrightarrow>
   r = (OSError ''Permission denied'', s, t + 1, w) \<and> snd x = Denied"
  by (cases x; cases "snd x")
     (auto simp add: deploy_item.simps Let_def split: prod.splits if_splits)

lemma deploy_item_Inr:
  "deploy_item lp (s, t, w) x = Inr r \<Longrightarrow>
   \<exists>s' w'. r = (s', t + 1, w') \<and> (s' = s \<or> s' = s + 1) \<and> snd x \<noteq> Denied"
  by (cases x; cases "snd x")
     (auto simp add: deploy_item.simps Let_def split: prod.splits if_splits)

lemma fix_item_Inl:
  "fix_item (s, t, w) x = Inl r \<Longrightarrow>
   r = (OSError ''Permission denied'', s, t + 1, w) \<and> snd x = Denied"
  by (cases x; cases "snd x")
     (auto simp add: fix_item.simps Let_def split: prod.splits if_splits sum.splits)

lemma fix_item_Inr:
  "fix_item (s, t, w) x = Inr r \<Longrightarrow>
   \<exists>s' w'. r = (s', t + 1, w') \<and> (s' = s \<or> s' = s + 1) \<and> snd x \<noteq> Denied"
  by (cases x; cases "snd x")
     (auto simp add: fix_item.simps Let_def split: prod.splits if_splits sum.splits)

lemma attempted_deploy_item: "attempted (deploy_item lp (s, t, w) x) = t + 1"
  using deploy_item_Inl [of lp s t w x] deploy_item_Inr [of lp s t w x]
  by (cases "deploy_item lp (s, t, w) x") auto

lemma succeeded_deploy_item:
  "succeeded (deploy_item lp (s, t, w) x) = s \<or> succeeded (deploy_item lp (s, t, w) x) = s + 1"
  using deploy_item_Inl [of lp s t w x] deploy_item_Inr [of lp s t w x]
  by (cases "deploy_item lp (s, t, w) x") auto

lemma attempted_fix_item: "attempted (fix_item (s, t, w) x) = t + 1"
  using fix_item_Inl [of s t w x] fix_item_Inr [of s t w x]
  by (cases "fix_item (s, t, w) x") auto

lemma succeeded_fix_item:
  "succeeded (fix_item (s, t, w) x) = s \<or> succeeded (fix_item (s, t, w) x) = s + 1"
  using fix_item_Inl [of s t w x] fix_item_Inr [of s t w x]
  by (cases "fix_item (s, t, w) x") auto


lemma raises_fix_item: "raises (fix_item (s, t, w) x) = (snd x = Denied)"
  using fix_item_Inl [of s t w x] fix_item_Inr [of s t w x]
  by (cases "fix_item (s, t, w) x") auto

text \<open>The loops: induction over the listing, with a case split on how the step ends.\<close>

lemma raises_deploy_loop: "raises (deploy_loop lp (s, t, w) es) = (Denied \<in> snd ` set es)"
proof (induction es arbitrary: s t w)
  case Nil
  show ?case by simp
next
  case (Cons x es)
  show ?case
  proof (cases "deploy_item lp (s, t, w) x")
    case (Inl r)
    with deploy_item_Inl [OF Inl] show ?thesis by simp
  next
    case (Inr r)
    from deploy_item_Inr [OF Inr] obtain s' w' where "r = (s', t + 1, w')" "snd x \<noteq> Denied"
      by blast
    with Inr Cons.IH [of s' "t + 1" w'] show ?thesis by simp
  qed
qed

lemma raises_fix_loop: "raises (fix_loop (s, t, w) es) = (Denied \<in> snd ` set es)"
proof (induction es arbitrary: s t w)
  case Nil
  show ?case by simp
next
  case (Cons x es)
  show ?case
  proof (cases "fix_item (s, t, w) x")
    case (Inl r)
    with fix_item_Inl [OF Inl] show ?thesis by simp
  next
    case (Inr r)
    from fix_item_Inr [OF Inr] obtain s' w' where "r = (s', t + 1, w')" "snd x \<noteq> Denied"
      by blast
    with Inr Cons.IH [of s' "t + 1" w'] show ?thesis by simp
  qed
qed

lemma attempted_deploy_loop:
  "\<not> raises (deploy_loop lp (s, t, w) es) \<Longrightarrow>
   attempted (deploy_loop lp (s, t, w) es) = t + length es"
proof (induction es arbitrary: s t w)
  case Nil
  show ?case by simp
next
  case (Cons x es)
  show ?case
  proof (cases "deploy_item lp (s, t, w) x")
    case (Inl r)
    with Cons.prems show ?thesis by simp
  next
    case (Inr r)
    from deploy_item_Inr [OF Inr] obtain s' w' where "r = (s', t + 1, w')" by blast
    with Inr Cons.IH [of s' "t + 1" w'] Cons.prems show ?thesis by simp
  qed
qed

lemma attempted_deploy_loop_le:
  "attempted (deploy_loop lp (s, t, w) es) \<le> t + length es"
proof (induction es arbitrary: s t w)
  case Nil
  show ?case by simp
next
  case (Cons x es)
  show ?case
  proof (cases "deploy_item lp (s, t, w) x")
    case (Inl r)
    with deploy_item_Inl [OF Inl] show ?thesis by simp
  next
    case (Inr r)
    from deploy_item_Inr [OF Inr] obtain s' w' where "r = (s', t + 1, w')" by blast
    with Inr Cons.IH [of s' "t + 1" w'] show ?thesis by simp
  qed
qed

lemma attempted_fix_loop:
  "\<not> raises (fix_loop (s, t, w) es) \<Longrightarrow>
   attempted (fix_loop (s, t, w) es) = t + length es"
proof (induction es arbitrary: s t w)
  case Nil
  show ?case by simp
next
  case (Cons x es)
  show ?case
  proof (cases "fix_item (s, t, w) x")
    case (Inl r)
    with Cons.prems show ?thesis by simp
  next
    case (Inr r)
    from fix_item_Inr [OF Inr] obtain s' w' where "r = (s', t + 1, w')" by blast
    with Inr Cons.IH [of s' "t + 1" w'] Cons.prems show ?thesis by simp
  qed
qed

lemma deploy_loop_gap:
  "s + d \<le> t \<Longrightarrow>
   succeeded (deploy_loop lp (s, t, w) es) + d \<le> attempted (deploy_loop lp (s, t, w) es)"
proof (induction es arbitrary: s t w)
  case Nil
  then show ?case by simp
next
  case (Cons x es)
  show ?case
  proof (cases "deploy_item lp (s, t, w) x")
    case (Inl r)
    with deploy_item_Inl [OF Inl] Cons.prems show ?thesis by simp
  next
    case (Inr r)
    from deploy_item_Inr [OF Inr] obtain s' w'
      where r: "r = (s', t + 1, w')" and "s' = s \<or> s' = s + 1" by blast
    with Cons.prems have "s' + d \<le> t + 1" by auto
    from Cons.IH [OF this, of w'] Inr r show ?thesis by simp
  qed
qed

lemma fix_loop_gap:
  "s + d \<le> t \<Longrightarrow>
   succeeded (fix_loop (s, t, w) es) + d \<le> attempted (fix_loop (s, t, w) es)"
proof (induction es arbitrary: s t w)
  case Nil
  then show ?case by simp
next
  case (Cons x es)
  show ?case
  proof (cases "fix_item (s, t, w) x")
    case (Inl r)
    with fix_item_Inl [OF Inl] Cons.prems show ?thesis by simp
  next
    case (Inr r)
    from fix_item_Inr [OF Inr] obtain s' w'
      where r: "r = (s', t + 1, w')" and "s' = s \<or> s' = s + 1" by blast
    with Cons.prems have "s' + d \<le> t + 1" by auto
    from Cons.IH [OF this, of w'] Inr r show ?thesis by simp
  qed
qed

lemma deploy_loop_le:
  "s \<le> t \<Longrightarrow> succeeded (deploy_loop lp (s, t, w) es) \<le> attempted (deploy_loop lp (s, t, w) es)"
  using deploy_loop_gap [of s 0 t lp w es] by simp

lemma fix_loop_le:
  "s \<le> t \<Longrightarrow> succeeded (fix_loop (s, t, w) es) \<le> attempted (fix_loop (s, t, w) es)"
  using fix_loop_gap [of s 0 t w es] by simp

text \<open>
  Claim C2, as stated: \<open>attempted\<close> is the number of direct and nested entries visited.
  It fails on the specification's own first scenario, where the tree has three entries
  (\<^verbatim>\<open>index.html\<close>, \<^verbatim>\<open>assets\<close>, \<^verbatim>\<open>assets/style.css\<close>) and the loop ends
  with \<open>attempted = 2\<close>: \<^verbatim>\<open>total_count\<close> is incremented in the loop of
  \<^verbatim>\<open>deploy\<close> only, and \<^verbatim>\<open>upload_directory\<close> counts nothing.
\<close>

theorem attempted_counts_nested_counterexample:
  "attempted (deploy_loop ''/srv/staging-deploy'' (0, 0, empty_site) site_tree) = 2
   \<and> count_entries site_tree = 3"
  by code_simp

text \<open>
  Claim C2, amended: whenever the loop ends, so that the counts are reported,
  \<open>attempted\<close> is the number of direct entries of the local root, whatever they are and
  whatever happens to them; nested entries are not counted. The loop ends unless a probe
  of a direct entry raises, and then \<open>attempted\<close> has not passed that number.
\<close>

theorem attempted_is_top_level_count:
  "(\<not> raises (deploy_loop lp (0, 0, w) es) \<longrightarrow>
      attempted (deploy_loop lp (0, 0, w) es) = length es)
   \<and> raises (deploy_loop lp (0, 0, w) es) = (Denied \<in> snd ` set es)
   \<and> attempted (deploy_loop lp (0, 0, w) es) \<le> length es"
  using attempted_deploy_loop [of lp 0 0 w es] raises_deploy_loop [of lp 0 0 w es]
    attempted_deploy_loop_le [of lp 0 0 w es]
  by simp

theorem attempted_is_top_level_count_witness:
  "\<not> raises (deploy_loop ''/srv/staging-deploy'' (0, 0, empty_site) site_tree)
   \<and> attempted (deploy_loop ''/srv/staging-deploy'' (0, 0, empty_site) site_tree) = 2"
proof -
  have "Denied \<notin> snd ` set site_tree" by (simp add: site_tree_def)
  with attempted_is_top_level_count [of "''/srv/staging-deploy''" empty_site site_tree]
  show ?thesis by (simp add: site_tree_def)
qed

text \<open>
  Claim C8: in both scripts an iteration of the top-level loop adds one to \<open>attempted\<close> and
  at most one to \<open>succeeded\<close>, and the loop started at \<open>(0, 0)\<close> ends, or is left, with
  \<open>succeeded \<le> attempted\<close>.
\<close>

theorem succeeded_le_attempted:
  "attempted (deploy_item lp (s, t, w) x) = t + 1
   \<and> (succeeded (deploy_item lp (s, t, w) x) = s \<or> succeeded (deploy_item lp (s, t, w) x) = s + 1)
   \<and> succeeded (deploy_loop lp (0, 0, w) es) \<le> attempted (deploy_loop lp (0, 0, w) es)
   \<and> attempted (fix_item (s, t, w) x) = t + 1
   \<and> (succeeded (fix_item (s, t, w) x) = s \<or> succeeded (fix_item (s, t, w) x) = s + 1)
   \<and> succeeded (fix_loop (0, 0, w) es) \<le> attempted (fix_loop (0, 0, w) es)"
  using attempted_deploy_item [of lp s t w x] succeeded_deploy_item [of lp s t w x]
    attempted_fix_item [of s t w x] succeeded_fix_item [of s t w x]
    deploy_loop_le [of 0 0 lp w es] fix_loop_le [of 0 0 w es]
  by simp

theorem succeeded_le_attempted_witness:
  "succeeded (deploy_loop ''/srv/staging-deploy'' (0, 0, empty_site) site_tree)
     \<le> attempted (deploy_loop ''/srv/staging-deploy'' (0, 0, empty_site) site_tree)
   \<and> succeeded (fix_loop (0, 0, empty_site) site_tree)
     \<le> attempted (fix_loop (0, 0, empty_site) site_tree)"
  using succeeded_le_attempted
    [of "''/srv/staging-deploy''" 0 0 empty_site "(''index.html'', Special)" site_tree]
  by blast

lemma deploy_item_other:
  "is_file e = Inr False \<Longrightarrow> is_dir e = Inr False \<Longrightarrow>
   deploy_item lp (s, t, w) (n, e) = Inr (s, t + 1, w)"
  by (simp add: deploy_item.simps)

lemma fix_item_other:
  "is_file e = Inr False \<Longrightarrow> is_dir e = Inr False \<Longrightarrow>
   fix_item (s, t, w) (n, e) = Inr (s, t + 1, w)"
  by (simp add: fix_item.simps)

lemma deploy_loop_unchanged_lt:
  assumes "x \<in> set es" and "\<And>s t w. succeeded (deploy_item lp (s, t, w) x) = s" and "s \<le> t"
  shows "succeeded (deploy_loop lp (s, t, w) es) < attempted (deploy_loop lp (s, t, w) es)"
  using assms(1,3)
proof (induction es arbitrary: s t w)
  case Nil
  then show ?case by simp
next
  case (Cons y es)
  show ?case
  proof (cases "deploy_item lp (s, t, w) y")
    case (Inl r)
    with deploy_item_Inl [OF Inl] Cons.prems show ?thesis by simp
  next
    case (Inr r)
    from deploy_item_Inr [OF Inr] obtain s' w'
      where r: "r = (s', t + 1, w')" and s': "s' = s \<or> s' = s + 1" by blast
    show ?thesis
    proof (cases "y = x")
      case True
      with assms(2) [of s t w] Inr r have "s' = s" by simp
      with Cons.prems have "s' + 1 \<le> t + 1" by simp
      from deploy_loop_gap [OF this, of lp w' es] Inr r show ?thesis by simp
    next
      case False
      with Cons.prems have mem: "x \<in> set es" by simp
      from s' Cons.prems have "s' \<le> t + 1" by auto
      from Cons.IH [OF mem this, of w'] Inr r show ?thesis by simp
    qed
  qed
qed

lemma fix_loop_unchanged_lt:
  assumes "x \<in> set es" and "\<And>s t w. succeeded (fix_item (s, t, w) x) = s" and "s \<le> t"
  shows "succeeded (fix_loop (s, t, w) es) < attempted (fix_loop (s, t, w) es)"
  using assms(1,3)
proof (induction es arbitrary: s t w)
  case Nil
  then show ?case by simp
next
  case (Cons y es)
  show ?case
  proof (cases "fix_item (s, t, w) y")
    case (Inl r)
    with fix_item_Inl [OF Inl] Cons.prems show ?thesis by simp
  next
    case (Inr r)
    from fix_item_Inr [OF Inr] obtain s' w'
      where r: "r = (s', t + 1, w')" and s': "s' = s \<or> s' = s + 1" by blast
    show ?thesis
    proof (cases "y = x")
      case True
      with assms(2) [of s t w] Inr r have "s' = s" by simp
      with Cons.prems have "s' + 1 \<le> t + 1" by simp
      from fix_loop_gap [OF this, of w' es] Inr r show ?thesis by simp
    next
      case False
      with Cons.prems have mem: "x \<in> set es" by simp
      from s' Cons.prems have "s' \<le> t + 1" by auto
      from Cons.IH [OF mem this, of w'] Inr r show ?thesis by simp
    qed
  qed
qed

text \<open>
  Claim C10: a top-level entry for which \<^verbatim>\<open>is_file()\<close> and \<^verbatim>\<open>is_dir()\<close> both answer
  false costs one iteration of the loop, which adds one to \<open>attempted\<close> and leaves
  everything else as it was (no command is sent, nothing is printed, \<open>succeeded\<close> is not
  touched); so a listing that holds such an entry ends with \<open>succeeded < attempted\<close>, in
  both scripts.
\<close>

theorem other_entry_attempted_never_succeeded:
  assumes "is_file e = Inr False" and "is_dir e = Inr False"
  shows "deploy_item lp (s, t, w) (n, e) = Inr (s, t + 1, w)
         \<and> fix_item (s, t, w) (n, e) = Inr (s, t + 1, w)
         \<and> ((n, e) \<in> set es \<longrightarrow>
              succeeded (deploy_loop lp (0, 0, w) es) < attempted (deploy_loop lp (0, 0, w) es)
              \<and> succeeded (fix_loop (0, 0, w) es) < attempted (fix_loop (0, 0, w) es))"
proof -
  note a = deploy_item_other [OF assms] and b = fix_item_other [OF assms]
  have "succeeded (deploy_loop lp (0, 0, w) es) < attempted (deploy_loop lp (0, 0, w) es)"
    if "(n, e) \<in> set es"
    by (rule deploy_loop_unchanged_lt [OF that]) (simp_all add: a)
  moreover have "succeeded (fix_loop (0, 0, w) es) < attempted (fix_loop (0, 0, w) es)"
    if "(n, e) \<in> set es"
    by (rule fix_loop_unchanged_lt [OF that]) (simp_all add: b)
  ultimately show ?thesis using a b by blast
qed

theorem other_entry_attempted_never_succeeded_witness:
  "is_file Special = Inr False \<and> is_dir Special = Inr False
   \<and> (''latest'', Special) \<in> set link_tree
   \<and> deploy_item ''/srv/staging-deploy'' (1, 1, empty_site) (''latest'', Special)
       = Inr (1, 2, empty_site)
   \<and> succeeded (deploy_loop ''/srv/staging-deploy'' (0, 0, empty_site) link_tree)
       < attempted (deploy_loop ''/srv/staging-deploy'' (0, 0, empty_site) link_tree)
   \<and> succeeded (fix_loop (0, 0, empty_site) link_tree)
       < attempted (fix_loop (0, 0, empty_site) link_tree)"
proof -
  have a: "is_file Special = Inr False" and b: "is_dir Special = Inr False" by simp_all
  have m: "(''latest'', Special) \<in> set link_tree" by (simp add: link_tree_def)
  note other_entry_attempted_never_succeeded
    [OF a b, of "''/srv/staging-deploy''" 1 1 empty_site "''latest''" link_tree]
  with m a b show ?thesis by (simp only: one_add_one simp_thms)
qed

section \<open>Properties: what a print leaves alone\<close>

lemma py_print_fields [simp]:
  "store (py_print w s) = store w"
  "cwd (py_print w s) = cwd w"
  "refused (py_print w s) = refused w"
  "stdout (py_print w s) = stdout w @ [s]"
  by (simp_all add: py_print_def)

lemma resolve_cong: "cwd w' = cwd w \<Longrightarrow> resolve w' p = resolve w p"
  by (cases p) (simp_all add: resolve_def)

lemma resolve_py_print [simp]: "resolve (py_print w s) p = resolve w p"
  by (rule resolve_cong) simp

lemma lookup_py_print [simp]: "lookup (py_print w s) k = lookup w k"
  by (simp add: lookup_def)

lemma raises_mkd_print [simp]: "raises (ftp_mkd (py_print w s) p) = raises (ftp_mkd w p)"
  by (simp add: raises_def ftp_mkd_def)

lemma upload_directory_ok:
  "fst (upload_directory w (lp, e) rd) = (\<not> raises (ftp_mkd w rd) \<and> \<not> raises (listdir e))"
proof -
  let ?w1 = "py_print w (''   [DIR] Uploading directory '' @ basename lp @ ''...'')"
  have "fst (upload_directory w (lp, e) rd)
          = (\<not> raises (ftp_mkd ?w1 rd) \<and> \<not> raises (listdir e))"
    by (cases e; cases "ftp_mkd ?w1 rd") (simp_all add: upload_directory.simps raises_def Let_def)
  then show ?thesis by (simp only: raises_mkd_print)
qed

lemma deploy_item_file:
  "isfile e \<Longrightarrow>
   deploy_item lp (s, t, w) (item, e) =
     Inr (if fst (upload_file w (lp @ ''/'' @ item, e) item) then s + 1 else s, t + 1,
          snd (upload_file w (lp @ ''/'' @ item, e) item))"
  by (cases e) (simp_all add: deploy_item.simps Let_def case_prod_beta)

lemma deploy_item_dir:
  "isdir e \<Longrightarrow>
   deploy_item lp (s, t, w) (item, e) =
     Inr (if fst (upload_directory w (lp @ ''/'' @ item, e) item) then s + 1 else s, t + 1,
          snd (upload_directory w (lp @ ''/'' @ item, e) item))"
  by (cases e) (simp_all add: deploy_item.simps Let_def case_prod_beta)

section \<open>Properties: when a directory counts as succeeded\<close>

text \<open>
  Claim C7: for a directory entry, \<^verbatim>\<open>upload_directory\<close> returns true, and the loop of
  \<^verbatim>\<open>deploy\<close> counts the entry in \<open>succeeded\<close>, exactly when its \<^verbatim>\<open>mkd\<close> and its
  \<^verbatim>\<open>os.listdir\<close> do not raise (nothing else in the body can raise: the calls made
  in its loop catch their own failures and their results are dropped). In particular a
  listable directory whose \<^verbatim>\<open>mkd\<close> succeeds is counted whatever its entries are.
\<close>

theorem directory_succeeds_iff_own_calls_return:
  assumes "isdir e"
  shows "fst (upload_directory w (lp @ ''/'' @ item, e) item)
           = (\<not> raises (ftp_mkd w item) \<and> \<not> raises (listdir e))
         \<and> succeeded (deploy_item lp (s, t, w) (item, e))
           = (if \<not> raises (ftp_mkd w item) \<and> \<not> raises (listdir e) then s + 1 else s)
         \<and> (\<forall>es. e = Directory es \<and> \<not> raises (ftp_mkd w item) \<longrightarrow>
               succeeded (deploy_item lp (s, t, w) (item, e)) = s + 1)"
proof -
  have ok: "fst (upload_directory w (lp @ ''/'' @ item, e) item)
           = (\<not> raises (ftp_mkd w item) \<and> \<not> raises (listdir e))"
    by (rule upload_directory_ok)
  have cnt: "succeeded (deploy_item lp (s, t, w) (item, e))
           = (if fst (upload_directory w (lp @ ''/'' @ item, e) item) then s + 1 else s)"
    by (simp add: deploy_item_dir [OF assms])
  have cnt': "succeeded (deploy_item lp (s, t, w) (item, e))
           = (if \<not> raises (ftp_mkd w item) \<and> \<not> raises (listdir e) then s + 1 else s)"
    by (simp only: cnt ok)
  have third: "\<forall>es. e = Directory es \<and> \<not> raises (ftp_mkd w item) \<longrightarrow>
               succeeded (deploy_item lp (s, t, w) (item, e)) = s + 1"
  proof (intro allI impI, elim conjE)
    fix es
    assume e: "e = Directory es" and m: "\<not> raises (ftp_mkd w item)"
    have "\<not> raises (listdir e)" unfolding e by (simp add: raises_def)
    with m show "succeeded (deploy_item lp (s, t, w) (item, e)) = s + 1"
      by (simp only: cnt' simp_thms if_True)
  qed
  from ok cnt' third show ?thesis by blast
qed

theorem directory_succeeds_iff_own_calls_return_witness:
  "isdir broken_assets
   \<and> \<not> raises (ftp_mkd empty_site ''assets'')
   \<and> \<not> raises (listdir broken_assets)
   \<and> fst (upload_directory empty_site (''/srv/staging-deploy'' @ ''/'' @ ''assets'', broken_assets)
          ''assets'')
   \<and> succeeded (deploy_item ''/srv/staging-deploy'' (0, 0, empty_site) (''assets'', broken_assets)) = 1"
proof -
  have d: "isdir broken_assets" by (simp add: broken_assets_def)
  have m: "\<not> raises (ftp_mkd empty_site ''assets'')"
    by (simp add: raises_def ftp_mkd_def resolve_def split_path_def lookup_def empty_site_def
        site_root_def no_refusal_def)
  have l: "\<not> raises (listdir broken_assets)" by (simp add: broken_assets_def raises_def)
  note directory_succeeds_iff_own_calls_return
    [OF d, of empty_site "''/srv/staging-deploy''" "''assets''" 0 0]
  with d m l show ?thesis by simp
qed

section \<open>Properties: the upload pass does not depend on what was printed or listed\<close>

lemma same_server_refl [simp]: "same_server w w"
  by (simp add: same_server_def)

lemma same_server_print_left [simp]: "same_server (py_print w s) w' = same_server w w'"
  by (simp add: same_server_def)

lemma same_server_print_right [simp]: "same_server w (py_print w' s) = same_server w w'"
  by (simp add: same_server_def)

lemma same_server_resolve: "same_server w w' \<Longrightarrow> resolve w p = resolve w' p"
  by (rule resolve_cong) (simp add: same_server_def)

lemma same_server_lookup: "same_server w w' \<Longrightarrow> lookup w k = lookup w' k"
  by (simp add: same_server_def lookup_def)

lemma same_server_mkd:
  "same_server w w' \<Longrightarrow> rel_sum (\<lambda>e e'. True) same_server (ftp_mkd w p) (ftp_mkd w' p)"
  using same_server_resolve [of w w' p] same_server_lookup [of w w' "resolve w p"]
  by (simp add: ftp_mkd_def) (simp add: same_server_def)

lemma same_server_cwd:
  "same_server w w' \<Longrightarrow> rel_sum (\<lambda>e e'. True) same_server (ftp_cwd w p) (ftp_cwd w' p)"
  using same_server_resolve [of w w' p] same_server_lookup [of w w' "resolve w p"]
  by (simp add: ftp_cwd_def) (simp add: same_server_def)







lemma rel_sum_raises: "rel_sum R S x y \<Longrightarrow> raises x = raises y"
  by (cases x; cases y) (simp_all add: raises_def)

lemma print_files_fields [simp]:
  "store (print_files w fs) = store w"
  "cwd (print_files w fs) = cwd w"
  "refused (print_files w fs) = refused w"
proof -
  have "store (print_files w fs) = store w \<and> cwd (print_files w fs) = cwd w
        \<and> refused (print_files w fs) = refused w"
    unfolding print_files_def by (induction fs arbitrary: w) simp_all
  then show "store (print_files w fs) = store w" "cwd (print_files w fs) = cwd w"
    "refused (print_files w fs) = refused w" by simp_all
qed

lemma list_current_fields [simp]:
  "store (list_current w) = store w"
  "cwd (list_current w) = cwd w"
  "refused (list_current w) = refused w"
  by (simp_all add: list_current_def Let_def split: sum.splits)

lemma list_final_fields [simp]:
  "store (list_final w) = store w"
  "cwd (list_final w) = cwd w"
  "refused (list_final w) = refused w"
  by (simp_all add: list_final_def Let_def split: sum.splits)

lemma fix_list_final_fields [simp]:
  "store (fix_list_final w) = store w"
  "cwd (fix_list_final w) = cwd w"
  "refused (fix_list_final w) = refused w"
  by (simp_all add: fix_list_final_def Let_def split: sum.splits)

lemma finally_quit_eq [simp]: "finally_quit w = w"
  by (simp add: finally_quit_def ftp_quit_def)

lemma same_server_fields:
  "store w = store w' \<Longrightarrow> cwd w = cwd w' \<Longrightarrow> refused w = refused w' \<Longrightarrow> same_server w w'"
  by (simp add: same_server_def)


lemma same_server_sym: "same_server a b \<Longrightarrow> same_server b a"
  by (simp add: same_server_def)

text \<open>The connection phase.\<close>

lemma connect_phase_raises:
  "raises (connect_phase w) = (refused w CONNECT \<or> refused w LOGIN \<or> refused w PWD)"
  by (simp add: connect_phase_def ftp_connect_def ftp_login_def ftp_pwd_def raises_def Let_def)

lemma connect_phase_Inr:
  "connect_phase w = Inr w1 \<Longrightarrow> store w1 = store w \<and> cwd w1 = cwd w \<and> refused w1 = refused w"
  by (auto simp add: connect_phase_def ftp_connect_def ftp_login_def ftp_pwd_def Let_def
      split: if_splits)


lemma fix_connect_phase_raises:
  "raises (fix_connect_phase w) = (refused w CONNECT \<or> refused w LOGIN \<or> refused w PWD)"
  by (simp add: fix_connect_phase_def ftp_connect_def ftp_login_def ftp_pwd_def raises_def Let_def)

lemma fix_connect_phase_Inr:
  "fix_connect_phase w = Inr w1 \<Longrightarrow> store w1 = store w \<and> cwd w1 = cwd w \<and> refused w1 = refused w"
  by (auto simp add: fix_connect_phase_def ftp_connect_def ftp_login_def ftp_pwd_def Let_def
      split: if_splits)

lemma fix_connect_phase_Inl:
  "fix_connect_phase w = Inl (e, w1) \<Longrightarrow> store w1 = store w \<and> cwd w1 = cwd w \<and> refused w1 = refused w"
  by (auto simp add: fix_connect_phase_def ftp_connect_def ftp_login_def ftp_pwd_def Let_def
      split: if_splits)

text \<open>Navigation.\<close>

lemma ftp_cwd_Inr: "ftp_cwd w p = Inr w1 \<Longrightarrow> w1 = w\<lparr>cwd := resolve w p\<rparr>"
  by (simp add: ftp_cwd_def split: if_splits)

lemma ftp_mkd_Inr:
  "ftp_mkd w p = Inr w1 \<Longrightarrow> w1 = w\<lparr>store := AList.update (resolve w p) RDir (store w)\<rparr>"
  by (simp add: ftp_mkd_def split: if_splits)

lemma ftp_storbinary_Inr:
  "ftp_storbinary w p f = Inr w1 \<Longrightarrow>
   w1 = w\<lparr>store := AList.update (resolve w p) (RFile f) (store w)\<rparr>"
  by (simp add: ftp_storbinary_def split: if_splits)

lemma navigate_Inr: "navigate w = Inr w1 \<Longrightarrow> refused w1 = refused w \<and> stdout w1 = stdout w"
  by (auto simp add: navigate_def split: sum.splits dest!: ftp_cwd_Inr ftp_mkd_Inr)

lemma navigate_Inl: "navigate w = Inl (e, w1) \<Longrightarrow> refused w1 = refused w \<and> stdout w1 = stdout w"
  by (auto simp add: navigate_def split: sum.splits dest!: ftp_cwd_Inr ftp_mkd_Inr)

lemma same_server_navigate:
  assumes "same_server w w'"
  shows "rel_sum (\<lambda>a b. same_server (snd a) (snd b)) same_server (navigate w) (navigate w')"
proof -
  let ?p = config_remote_path
  note c = same_server_cwd [OF assms, of ?p]
  note m = same_server_mkd [OF assms, of ?p]
  show ?thesis
  proof (cases "ftp_cwd w ?p")
    case (Inr w1)
    with c show ?thesis by (cases "ftp_cwd w' ?p") (simp_all add: navigate_def)
  next
    case (Inl e)
    with c obtain e' where i': "ftp_cwd w' ?p = Inl e'" by (cases "ftp_cwd w' ?p") simp_all
    show ?thesis
    proof (cases "ftp_mkd w ?p")
      case l: (Inl e2)
      with m obtain e2' where "ftp_mkd w' ?p = Inl e2'" by (cases "ftp_mkd w' ?p") simp_all
      with l Inl i' assms show ?thesis by (simp add: navigate_def)
    next
      case r: (Inr w1)
      with m obtain w1' where r': "ftp_mkd w' ?p = Inr w1'" and s1: "same_server w1 w1'"
        by (cases "ftp_mkd w' ?p") simp_all
      from same_server_cwd [OF s1, of ?p] s1 Inl i' r r' show ?thesis
        by (cases "ftp_cwd w1 ?p"; cases "ftp_cwd w1' ?p") (simp_all add: navigate_def)
    qed
  qed
qed

section \<open>Properties: when a run returns success\<close>

lemma raises_navigate_print [simp]: "raises (navigate (py_print w s)) = raises (navigate w)"
  by (rule rel_sum_raises [OF same_server_navigate]) simp

lemma raises_cwd_print [simp]: "raises (ftp_cwd (py_print w s) p) = raises (ftp_cwd w p)"
  by (rule rel_sum_raises [OF same_server_cwd]) simp

lemma navigate_phase_raises:
  "raises (navigate_phase w) = (raises (navigate w) \<or> refused w PWD)"
proof -
  let ?w1 = "py_print w (''[NAV] Navigating to '' @ config_remote_path @ ''...'')"
  show ?thesis
  proof (cases "navigate ?w1")
    case (Inl ew)
    then have "raises (navigate ?w1)" by simp
    then have "raises (navigate w)" by simp
    with Inl show ?thesis by (simp add: navigate_phase_def Let_def)
  next
    case (Inr w2)
    then have "\<not> raises (navigate ?w1)" by simp
    then have n: "\<not> raises (navigate w)" by simp
    from navigate_Inr [OF Inr] have "refused w2 = refused w" by simp
    with Inr n show ?thesis by (simp add: navigate_phase_def Let_def ftp_pwd_def)
  qed
qed

lemma upload_phase_fst:
  "upload_phase w lp root = Inr (b, w1) \<Longrightarrow> b = (root \<noteq> None)"
  by (auto simp add: upload_phase_def Let_def split: option.splits sum.splits prod.splits)

text \<open>
  Whether the upload pass raises is decided by the local tree alone: the root cannot be
  listed, or a probe of one of its entries raises.
\<close>

lemma upload_phase_raises:
  "raises (upload_phase w lp root) =
     (\<exists>d. root = Some d
        \<and> (raises (listdir d) \<or> (\<exists>es. d = Directory es \<and> Denied \<in> snd ` set es)))"
proof (cases root)
  case None
  then show ?thesis by (simp add: upload_phase_def Let_def)
next
  case (Some d)
  let ?w1 = "py_print w (CHR 0x0A # ''[UPLOAD] Uploading files to zaido.org directory...'')"
  show ?thesis
  proof (cases d)
    case (Directory es)
    with Some raises_deploy_loop [of lp 0 0 ?w1 es] show ?thesis
      by (cases "deploy_loop lp (0, 0, ?w1) es")
         (auto simp add: upload_phase_def Let_def split: prod.splits)
  qed (use Some in \<open>simp_all add: upload_phase_def Let_def\<close>)
qed

lemma upload_phase_raises_any:
  "raises (upload_phase w lp root) = raises (upload_phase w' lp' root)"
  by (simp add: upload_phase_raises)

lemma fix_upload_phase_fst:
  "fix_upload_phase w lp root = Inr (b, w1) \<Longrightarrow> b = (root \<noteq> None)"
  by (auto simp add: fix_upload_phase_def Let_def split: option.splits sum.splits prod.splits)

lemma fix_upload_phase_raises:
  "raises (fix_upload_phase w lp root) =
     (\<exists>d. root = Some d
        \<and> (raises (listdir d) \<or> (\<exists>es. d = Directory es \<and> Denied \<in> snd ` set es)))"
proof (cases root)
  case None
  then show ?thesis by (simp add: fix_upload_phase_def Let_def)
next
  case (Some d)
  let ?w1 = "py_print w (CHR 0x0A # ''[UPLOAD] Uploading correct files...'')"
  show ?thesis
  proof (cases d)
    case (Directory es)
    with Some raises_fix_loop [of 0 0 ?w1 es] show ?thesis
      by (cases "fix_loop (0, 0, ?w1) es")
         (auto simp add: fix_upload_phase_def Let_def split: prod.splits)
  qed (use Some in \<open>simp_all add: fix_upload_phase_def Let_def\<close>)
qed

lemma fix_upload_phase_raises_any:
  "raises (fix_upload_phase w lp root) = raises (fix_upload_phase w' lp' root)"
  by (simp add: fix_upload_phase_raises)

lemma upload_phases_raise_alike:
  "raises (fix_upload_phase w lp root) = raises (upload_phase w' lp' root)"
  by (simp add: fix_upload_phase_raises upload_phase_raises)

lemma deploy_fst: "fst (deploy w lp root) = (\<exists>w1. deploy_try w lp root = Inr (True, w1))"
  by (cases "deploy_try w lp root") (auto simp add: deploy_def)

lemma deploy_returns:
  "fst (deploy w lp root) =
     (\<not> raises (connect_phase w) \<and> \<not> raises (navigate w)
      \<and> root \<noteq> None \<and> \<not> raises (upload_phase w lp root))"
proof (cases "connect_phase w")
  case (Inl ew)
  then show ?thesis by (simp add: deploy_fst deploy_try_def)
next
  case (Inr w1)
  from connect_phase_Inr [OF Inr] have same: "same_server w1 w" and r: "refused w1 = refused w"
    by (simp_all add: same_server_fields)
  from Inr connect_phase_raises [of w] have pwd: "\<not> refused w PWD" by simp
  from rel_sum_raises [OF same_server_navigate [OF same]]
  have nav: "raises (navigate w1) = raises (navigate w)" .
  show ?thesis
  proof (cases "navigate_phase w1")
    case l: (Inl ew)
    with navigate_phase_raises [of w1] r pwd nav have "raises (navigate w)" by simp
    with Inr l show ?thesis by (simp add: deploy_fst deploy_try_def)
  next
    case rr: (Inr w2)
    with navigate_phase_raises [of w1] nav have n: "\<not> raises (navigate w)" by simp
    let ?u = "upload_phase (list_current w2) lp root"
    have t: "deploy_try w lp root = ?u" using Inr rr by (simp add: deploy_try_def)
    show ?thesis
    proof (cases ?u)
      case ul: (Inl ew)
      then have "raises ?u" by simp
      then have "raises (upload_phase w lp root)"
        using upload_phase_raises_any [of "list_current w2" lp root w lp] by blast
      with ul t show ?thesis by (simp add: deploy_fst)
    next
      case ur: (Inr bw)
      obtain b w3 where bw: "bw = (b, w3)" by (cases bw)
      from ur have "\<not> raises ?u" by simp
      then have nr: "\<not> raises (upload_phase w lp root)"
        using upload_phase_raises_any [of "list_current w2" lp root w lp] by blast
      from upload_phase_fst [of "list_current w2" lp root b w3] ur bw
      have "b = (root \<noteq> None)" by simp
      with nr ur t bw Inr n show ?thesis by (auto simp add: deploy_fst)
    qed
  qed
qed

lemma main_exit:
  "fst (main w lp root)
     = (if fst (deploy (py_print w ''[START] zaido.org staging deployment script starting...'')
               lp root) then 0 else 1)"
  by (simp add: main_def Let_def case_prod_beta)

lemma fix_main_exit:
  "fst (fix_main w lp root)
     = (if fst (fix_mylzip_redirect (py_print w ''[START] Fixing myl.zip redirect issue...'')
               lp root) then 0 else 1)"
  by (simp add: fix_main_def Let_def case_prod_beta)

lemma raises_connect_phase_print [simp]:
  "raises (connect_phase (py_print w s)) = raises (connect_phase w)"
  by (simp add: connect_phase_raises)

lemma raises_fix_connect_phase_print [simp]:
  "raises (fix_connect_phase (py_print w s)) = raises (fix_connect_phase w)"
  by (simp add: fix_connect_phase_raises)

lemma fix_fst:
  "fst (fix_mylzip_redirect w lp root) = (\<exists>w1. fix_try w lp root = Inr (True, w1))"
  by (cases "fix_try w lp root") (auto simp add: fix_mylzip_redirect_def)

lemma fix_returns:
  "fst (fix_mylzip_redirect w lp root) =
     (\<not> raises (fix_connect_phase w) \<and> \<not> raises (ftp_cwd w fix_remote_path)
      \<and> \<not> refused w NLST
      \<and> root \<noteq> None \<and> \<not> raises (fix_upload_phase w lp root))"
proof (cases "fix_connect_phase w")
  case (Inl ew)
  then show ?thesis by (simp add: fix_fst fix_try_def)
next
  case (Inr w1)
  from fix_connect_phase_Inr [OF Inr] have same: "same_server w1 w" and r: "refused w1 = refused w"
    by (simp_all add: same_server_fields)
  from Inr fix_connect_phase_raises [of w] have pwd: "\<not> refused w PWD" by simp
  let ?w2 = "py_print w1 (''[NAV] Navigating to '' @ fix_remote_path @ ''...'')"
  from same have same2: "same_server ?w2 w" by simp
  from rel_sum_raises [OF same_server_cwd [OF same2]]
  have nav: "raises (ftp_cwd ?w2 fix_remote_path) = raises (ftp_cwd w fix_remote_path)" .
  show ?thesis
  proof (cases "ftp_cwd ?w2 fix_remote_path")
    case l: (Inl e)
    have "raises (ftp_cwd ?w2 fix_remote_path)" unfolding l by (rule raises_Inl)
    with nav have "raises (ftp_cwd w fix_remote_path)" by blast
    with Inr l show ?thesis by (simp add: fix_fst fix_try_def Let_def)
  next
    case rr: (Inr w3)
    have "\<not> raises (ftp_cwd ?w2 fix_remote_path)" unfolding rr by (rule raises_Inr)
    with nav have n: "\<not> raises (ftp_cwd w fix_remote_path)" by blast
    from ftp_cwd_Inr [OF rr] r have r3: "refused w3 = refused w" by simp
    with pwd have p3: "ftp_pwd w3 = Inr (join_path (cwd w3))" by (simp add: ftp_pwd_def)
    show ?thesis
    proof (cases "refused w NLST")
      case True
      with Inr rr p3 r3 n show ?thesis
        by (simp add: fix_fst fix_try_def Let_def ftp_nlst_def)
    next
      case False
      let ?w5 = "py_print (py_print w3 (''[OK] Now in directory: '' @ join_path (cwd w3)))
                   (CHR 0x0A # ''[LIST] Current files in myl.zip directory:'')"
      from False r3 obtain files where nl: "ftp_nlst ?w5 = Inr files"
        by (simp add: ftp_nlst_def)
      let ?w6 = "print_files ?w5 files"
      let ?w7 = "if ''index.html'' \<in> set files
                 then py_print (py_print ?w6
                    (CHR 0x0A # ''[INFO] Found index.html - this might be causing the redirect''))
                    ''[INFO] We will overwrite it with the correct content''
                 else ?w6"
      let ?u = "fix_upload_phase ?w7 lp root"
      have t: "fix_try w lp root = ?u"
        using Inr rr p3 nl by (simp add: fix_try_def Let_def)
      show ?thesis
      proof (cases ?u)
        case ul: (Inl ew)
        then have "raises ?u" by simp
        then have "raises (fix_upload_phase w lp root)"
          using fix_upload_phase_raises_any [of ?w7 lp root w lp] by blast
        with ul t show ?thesis by (simp add: fix_fst)
      next
        case ur: (Inr bw)
        obtain b w8 where bw: "bw = (b, w8)" by (cases bw)
        from ur have "\<not> raises ?u" by simp
        then have nr: "\<not> raises (fix_upload_phase w lp root)"
          using fix_upload_phase_raises_any [of ?w7 lp root w lp] by blast
        from fix_upload_phase_fst [of ?w7 lp root b w8] ur bw
        have "b = (root \<noteq> None)" by simp
        with nr ur t bw Inr n False show ?thesis by (auto simp add: fix_fst)
      qed
    qed
  qed
qed

lemma fix_early_return_store:
  assumes "raises (fix_connect_phase w) \<or> raises (ftp_cwd w fix_remote_path) \<or> refused w NLST"
  shows "store (snd (fix_mylzip_redirect w lp root)) = store w"
proof (cases "fix_connect_phase w")
  case (Inl ew)
  obtain e w1 where ew: "ew = (e, w1)" by (cases ew)
  from fix_connect_phase_Inl [of w e w1] Inl ew have "store w1 = store w" by simp
  with Inl ew show ?thesis by (simp add: fix_mylzip_redirect_def fix_try_def)
next
  case (Inr w1)
  from fix_connect_phase_Inr [OF Inr] have same: "same_server w1 w" and r: "refused w1 = refused w"
    and st: "store w1 = store w"
    by (simp_all add: same_server_fields)
  from Inr fix_connect_phase_raises [of w] have pwd: "\<not> refused w PWD" by simp
  let ?w2 = "py_print w1 (''[NAV] Navigating to '' @ fix_remote_path @ ''...'')"
  from same have same2: "same_server ?w2 w" by simp
  from rel_sum_raises [OF same_server_cwd [OF same2]]
  have nav: "raises (ftp_cwd ?w2 fix_remote_path) = raises (ftp_cwd w fix_remote_path)" .
  show ?thesis
  proof (cases "ftp_cwd ?w2 fix_remote_path")
    case l: (Inl e)
    with Inr st show ?thesis by (simp add: fix_mylzip_redirect_def fix_try_def Let_def)
  next
    case rr: (Inr w3)
    have "\<not> raises (ftp_cwd ?w2 fix_remote_path)" unfolding rr by (rule raises_Inr)
    with nav have n: "\<not> raises (ftp_cwd w fix_remote_path)" by blast
    from Inr have c: "\<not> raises (fix_connect_phase w)" by simp
    from assms n c have nl: "refused w NLST" by blast
    from ftp_cwd_Inr [OF rr] r st have r3: "refused w3 = refused w" and st3: "store w3 = store w"
      by simp_all
    with pwd have p3: "ftp_pwd w3 = Inr (join_path (cwd w3))" by (simp add: ftp_pwd_def)
    from Inr rr p3 r3 st3 nl show ?thesis
      by (simp add: fix_mylzip_redirect_def fix_try_def Let_def ftp_nlst_def)
  qed
qed

lemma fresh_server_deploy_navigate: "\<not> raises (navigate fresh_server)"
  by (simp add: navigate_def ftp_cwd_def ftp_mkd_def resolve_def split_path_def lookup_def
      fresh_server_def no_refusal_def config_remote_path_def)

lemma fresh_server_connect: "\<not> raises (connect_phase fresh_server)"
  by (simp add: connect_phase_raises fresh_server_def no_refusal_def)

lemma raises_listdir_Directory [simp]: "\<not> raises (listdir (Directory es))"
  by simp

section \<open>Properties: the exit code\<close>

lemma site_tree_pass: "\<not> raises (upload_phase w lp (Some (Directory site_tree)))"
  "\<not> raises (fix_upload_phase w lp (Some (Directory site_tree)))"
  by (simp_all add: upload_phase_raises fix_upload_phase_raises site_tree_def)

lemma denied_tree_pass: "raises (upload_phase w lp (Some (Directory denied_tree)))"
  "raises (fix_upload_phase w lp (Some (Directory denied_tree)))"
  by (simp_all add: upload_phase_raises fix_upload_phase_raises denied_tree_def)

lemma denied_member:
  "(Denied \<in> snd ` set es) = (\<exists>x \<in> set es. raises (is_file (snd x)))"
  by (induction es) auto

text \<open>
  Claim C9, as stated: the exit code is 1 exactly when connection, navigation or the
  top-level upload pass raised, or the local root was missing. In
  \<^verbatim>\<open>fix-mylzip-redirect.py\<close> it is also 1 when the first \<^verbatim>\<open>nlst\<close> raises (line 46
  returns false): here the server refuses only \<^verbatim>\<open>NLST\<close>, the connection and the
  navigation succeed, the local root exists and its upload pass would not raise, and the
  exit code is 1.
\<close>

theorem exit_code_listing_counterexample:
  "fst (fix_main fix_site_no_listing local_root (Some (Directory site_tree))) = 1
   \<and> \<not> raises (fix_connect_phase fix_site_no_listing)
   \<and> \<not> raises (ftp_cwd fix_site_no_listing fix_remote_path)
   \<and> \<not> raises (fix_upload_phase fix_site_no_listing local_root (Some (Directory site_tree)))"
proof -
  have c: "\<not> raises (fix_connect_phase fix_site_no_listing)"
    by (simp add: fix_connect_phase_raises fix_site_no_listing_def refuse_nlst_def)
  have n: "\<not> raises (ftp_cwd fix_site_no_listing fix_remote_path)"
    by (simp add: ftp_cwd_def resolve_def split_path_def lookup_def fix_site_no_listing_def
        refuse_nlst_def fix_remote_path_def fix_root_def)
  have l: "refused (py_print fix_site_no_listing ''[START] Fixing myl.zip redirect issue...'') NLST"
    by (simp add: fix_site_no_listing_def refuse_nlst_def)
  have "fst (fix_main fix_site_no_listing local_root (Some (Directory site_tree))) = 1"
    by (simp only: fix_main_exit fix_returns l simp_thms if_False)
  with c n site_tree_pass(2) show ?thesis by simp
qed

text \<open>
  Claim C9, amended: in both scripts the exit code is 0 exactly when the main function
  returned true, and 1 otherwise. For \<^verbatim>\<open>deploy-staging.py\<close> that is exactly when the
  connection (\<^verbatim>\<open>connect\<close>, \<^verbatim>\<open>login\<close>, \<^verbatim>\<open>pwd\<close>) or the navigation raised, the
  local root was missing, or the top-level upload pass raised; for
  \<^verbatim>\<open>fix-mylzip-redirect.py\<close> there is one more cause, the first remote listing raising.
  The upload pass raises when the local root cannot be listed or when \<^verbatim>\<open>is_file()\<close> or
  \<^verbatim>\<open>is_dir()\<close> raises on one of its entries, and in no other case.
\<close>

theorem exit_code_iff_returned_true:
  "(fst (main w lp root) = 0)
     = fst (deploy (py_print w ''[START] zaido.org staging deployment script starting...'') lp root)
   \<and> (fst (main w lp root) = 1)
     = (refused w CONNECT \<or> refused w LOGIN \<or> refused w PWD \<or> raises (navigate w)
        \<or> root = None \<or> raises (upload_phase w lp root))
   \<and> (fst (fix_main w lp root) = 0)
     = fst (fix_mylzip_redirect (py_print w ''[START] Fixing myl.zip redirect issue...'') lp root)
   \<and> (fst (fix_main w lp root) = 1)
     = (refused w CONNECT \<or> refused w LOGIN \<or> refused w PWD
        \<or> raises (ftp_cwd w fix_remote_path) \<or> refused w NLST
        \<or> root = None \<or> raises (fix_upload_phase w lp root))
   \<and> raises (upload_phase w lp root)
     = (\<exists>d. root = Some d
          \<and> (raises (listdir d)
              \<or> (\<exists>es. d = Directory es \<and> (\<exists>x \<in> set es. raises (is_file (snd x))))))
   \<and> raises (fix_upload_phase w lp root) = raises (upload_phase w lp root)"
proof -
  let ?s = "''[START] zaido.org staging deployment script starting...''"
  let ?f = "''[START] Fixing myl.zip redirect issue...''"
  have a: "(fst (main w lp root) = 0) = fst (deploy (py_print w ?s) lp root)"
    by (simp add: main_exit)
  have "raises (upload_phase (py_print w ?s) lp root) = raises (upload_phase w lp root)"
    by (rule upload_phase_raises_any)
  then have b: "(fst (main w lp root) = 1)
     = (refused w CONNECT \<or> refused w LOGIN \<or> refused w PWD \<or> raises (navigate w)
        \<or> root = None \<or> raises (upload_phase w lp root))"
    by (auto simp add: main_exit deploy_returns connect_phase_raises)
  have c: "(fst (fix_main w lp root) = 0) = fst (fix_mylzip_redirect (py_print w ?f) lp root)"
    by (simp add: fix_main_exit)
  have "raises (fix_upload_phase (py_print w ?f) lp root) = raises (fix_upload_phase w lp root)"
    by (rule fix_upload_phase_raises_any)
  then have d: "(fst (fix_main w lp root) = 1)
     = (refused w CONNECT \<or> refused w LOGIN \<or> refused w PWD
        \<or> raises (ftp_cwd w fix_remote_path) \<or> refused w NLST
        \<or> root = None \<or> raises (fix_upload_phase w lp root))"
    by (auto simp add: fix_main_exit fix_returns fix_connect_phase_raises)
  have e: "raises (upload_phase w lp root)
     = (\<exists>d. root = Some d
          \<and> (raises (listdir d)
              \<or> (\<exists>es. d = Directory es \<and> (\<exists>x \<in> set es. raises (is_file (snd x))))))"
    by (simp only: upload_phase_raises denied_member)
  have f: "raises (fix_upload_phase w lp root) = raises (upload_phase w lp root)"
    by (rule upload_phases_raise_alike)
  from a b c d e f show ?thesis by blast
qed

theorem exit_code_iff_returned_true_witness:
  "fst (main fresh_server local_root (Some (Directory site_tree))) = 0
   \<and> fst (main fresh_server local_root None) = 1
   \<and> fst (main fresh_server local_root (Some (Directory denied_tree))) = 1
   \<and> fst (fix_main fix_site_no_listing local_root (Some (Directory site_tree))) = 1"
proof -
  have l: "refused fix_site_no_listing NLST"
    by (simp add: fix_site_no_listing_def refuse_nlst_def)
  note t1 = exit_code_iff_returned_true [of fresh_server local_root "Some (Directory site_tree)"]
  note t2 = exit_code_iff_returned_true [of fresh_server local_root None]
  note t3 = exit_code_iff_returned_true [of fix_site_no_listing local_root "Some (Directory site_tree)"]
  note t4 = exit_code_iff_returned_true [of fresh_server local_root "Some (Directory denied_tree)"]
  from t1 fresh_server_connect fresh_server_deploy_navigate
  have "fst (main fresh_server local_root (Some (Directory site_tree))) = 0"
    by (simp add: deploy_returns site_tree_pass)
  moreover from t2 have "fst (main fresh_server local_root None) = 1" by simp
  moreover from t3 l
  have "fst (fix_main fix_site_no_listing local_root (Some (Directory site_tree))) = 1" by simp
  moreover from t4 denied_tree_pass(1) [of fresh_server local_root]
  have "fst (main fresh_server local_root (Some (Directory denied_tree))) = 1" by simp
  ultimately show ?thesis by blast
qed

section \<open>Properties: a whole run does not depend on what was printed or listed\<close>





lemma fix_item_file:
  "isfile e \<Longrightarrow>
   fix_item (s, t, w) (item, e) =
     (case open_rb e of
        Inl ex \<Rightarrow>
          Inr (s, t + 1, py_print w (''   [ERROR] Failed to upload '' @ item @ '': '' @ str_exn ex))
      | Inr f \<Rightarrow>
          (case ftp_storbinary (py_print w (''   [FILE] Uploading '' @ item @ ''...'')) item f of
             Inl ex \<Rightarrow>
               Inr (s, t + 1,
                    py_print (py_print w (''   [FILE] Uploading '' @ item @ ''...''))
                      (''   [ERROR] Failed to upload '' @ item @ '': '' @ str_exn ex))
           | Inr w2 \<Rightarrow>
               Inr (s + 1, t + 1, py_print w2 (''   [OK] '' @ item @ '' uploaded successfully''))))"
  by (cases e) (simp_all add: fix_item.simps Let_def split: sum.splits)

lemma fix_item_dir:
  "isdir e \<Longrightarrow>
   fix_item (s, t, w) (item, e) =
     (case ftp_mkd (py_print w (''   [DIR] Uploading directory '' @ item @ ''...'')) item of
        Inl ex \<Rightarrow>
          Inr (s, t + 1,
               py_print (py_print w (''   [DIR] Uploading directory '' @ item @ ''...''))
                 (''   [ERROR] Failed to upload directory '' @ item @ '': '' @ str_exn ex))
      | Inr w2 \<Rightarrow>
          (case listdir e of
             Inl ex \<Rightarrow>
               Inr (s, t + 1,
                    py_print w2
                      (''   [ERROR] Failed to upload directory '' @ item @ '': '' @ str_exn ex))
           | Inr es \<Rightarrow>
               (case fix_subitems w2 item es of
                  Inl (ex, w3) \<Rightarrow>
                    Inr (s, t + 1,
                         py_print w3
                           (''   [ERROR] Failed to upload directory '' @ item @ '': ''
                              @ str_exn ex))
                | Inr w3 \<Rightarrow>
                    Inr (s + 1, t + 1,
                         py_print w3 (''   [OK] Directory '' @ item @ '' uploaded successfully'')))))"
  by (cases e) (simp_all add: fix_item.simps Let_def split: sum.splits)




lemma same_server_list_current [simp]: "same_server (list_current w) w' = same_server w w'"
  by (simp add: same_server_def)

lemma same_server_list_current_right [simp]: "same_server w (list_current w') = same_server w w'"
  by (simp add: same_server_def)



section \<open>Properties: navigation into the remote root\<close>

lemma navigate_fallback:
  assumes "raises (ftp_cwd w config_remote_path)"
  shows "navigate w =
           (case ftp_mkd w config_remote_path of
              Inl e \<Rightarrow> Inl (e, w)
            | Inr w1 \<Rightarrow>
                (case ftp_cwd w1 config_remote_path of
                   Inl e \<Rightarrow> Inl (e, w1)
                 | Inr w2 \<Rightarrow> Inr w2))"
  using assms by (cases "ftp_cwd w config_remote_path") (simp_all add: navigate_def)

lemma navigate_fallback_raises:
  assumes "raises (ftp_cwd w config_remote_path)"
  shows "raises (navigate w) =
           (raises (ftp_mkd w config_remote_path)
            \<or> (\<exists>w1. ftp_mkd w config_remote_path = Inr w1 \<and> raises (ftp_cwd w1 config_remote_path)))"
  unfolding navigate_fallback [OF assms]
  by (cases "ftp_mkd w config_remote_path")
     (auto split: sum.splits)

lemma navigate_fallback_Inr:
  assumes "raises (ftp_cwd w config_remote_path)"
    and "ftp_mkd w config_remote_path = Inr w1" and "ftp_cwd w1 config_remote_path = Inr w2"
  shows "navigate w = Inr w2"
  unfolding navigate_fallback [OF assms(1)] using assms(2,3) by simp

lemma fix_navigation_fatal:
  assumes "raises (ftp_cwd w fix_remote_path)"
  shows "\<not> fst (fix_mylzip_redirect w lp root)
         \<and> store (snd (fix_mylzip_redirect w lp root)) = store w"
  using assms fix_early_return_store [of w lp root] by (simp add: fix_returns)

lemma fresh_server_cwd_raises:
  "raises (ftp_cwd fresh_server config_remote_path)"
  "raises (ftp_cwd fresh_server fix_remote_path)"
  by (simp_all add: ftp_cwd_def resolve_def split_path_def lookup_def fresh_server_def
      no_refusal_def config_remote_path_def fix_remote_path_def)

lemma fresh_server_fix_mkd: "\<not> raises (ftp_mkd fresh_server fix_remote_path)"
  by (simp add: ftp_mkd_def resolve_def split_path_def lookup_def fresh_server_def
      no_refusal_def fix_remote_path_def)

text \<open>
  Claim C5, as stated, covers both scripts. \<^verbatim>\<open>fix-mylzip-redirect.py\<close> has no
  fallback (lines 30 to 34 print and return false): on a server where the remote root
  does not exist yet and \<^verbatim>\<open>MKD\<close> of it would succeed, the run fails and nothing is
  created.
\<close>

theorem fix_navigation_no_fallback_counterexample:
  "raises (ftp_cwd fresh_server fix_remote_path)
   \<and> \<not> raises (ftp_mkd fresh_server fix_remote_path)
   \<and> \<not> fst (fix_mylzip_redirect fresh_server local_root (Some (Directory site_tree)))
   \<and> store (snd (fix_mylzip_redirect fresh_server local_root (Some (Directory site_tree)))) = []"
proof -
  have c: "raises (ftp_cwd fresh_server fix_remote_path)" by (rule fresh_server_cwd_raises(2))
  have "store fresh_server = []" by (simp add: fresh_server_def)
  with fix_navigation_fatal [OF c, of local_root "Some (Directory site_tree)"] c
    fresh_server_fix_mkd
  show ?thesis by simp
qed

text \<open>
  Claim C5, amended. In \<^verbatim>\<open>deploy-staging.py\<close>, when the first \<^verbatim>\<open>cwd\<close> into the
  remote root raises, the navigation is one \<^verbatim>\<open>mkd\<close> of the root followed by one more
  \<^verbatim>\<open>cwd\<close>: it raises exactly when one of these two raises, and otherwise ends in the
  state the second \<^verbatim>\<open>cwd\<close> returns. A navigation that raises makes \<^verbatim>\<open>deploy\<close> return
  false, and with a working connection and a local root whose entries can all be probed
  nothing else does. In
  \<^verbatim>\<open>fix-mylzip-redirect.py\<close> a \<^verbatim>\<open>cwd\<close> that raises is fatal at once and the store is
  left as it was.
\<close>

theorem navigation_created_and_retried_once:
  assumes "raises (ftp_cwd w config_remote_path)"
  shows "raises (navigate w) =
           (raises (ftp_mkd w config_remote_path)
            \<or> (\<exists>w1. ftp_mkd w config_remote_path = Inr w1
                    \<and> raises (ftp_cwd w1 config_remote_path)))
         \<and> (\<forall>w1 w2. ftp_mkd w config_remote_path = Inr w1 \<and> ftp_cwd w1 config_remote_path = Inr w2
               \<longrightarrow> navigate w = Inr w2)
         \<and> (raises (navigate w) \<longrightarrow> \<not> fst (deploy w lp root))
         \<and> (\<not> raises (connect_phase w)
              \<and> (\<exists>es. root = Some (Directory es) \<and> (\<forall>x\<in>set es. \<not> raises (is_file (snd x))))
               \<longrightarrow> fst (deploy w lp root) = (\<not> raises (navigate w)))
         \<and> (raises (ftp_cwd w fix_remote_path)
               \<longrightarrow> \<not> fst (fix_mylzip_redirect w lp root)
                   \<and> store (snd (fix_mylzip_redirect w lp root)) = store w)"
proof -
  note a = navigate_fallback_raises [OF assms]
  have b: "\<forall>w1 w2. ftp_mkd w config_remote_path = Inr w1 \<and> ftp_cwd w1 config_remote_path = Inr w2
               \<longrightarrow> navigate w = Inr w2"
    using navigate_fallback_Inr [OF assms] by blast
  have c: "raises (navigate w) \<longrightarrow> \<not> fst (deploy w lp root)"
    by (simp add: deploy_returns)
  have d: "\<not> raises (connect_phase w)
              \<and> (\<exists>es. root = Some (Directory es) \<and> (\<forall>x\<in>set es. \<not> raises (is_file (snd x))))
               \<longrightarrow> fst (deploy w lp root) = (\<not> raises (navigate w))"
    by (auto simp add: deploy_returns upload_phase_raises)
  have e: "raises (ftp_cwd w fix_remote_path)
               \<longrightarrow> \<not> fst (fix_mylzip_redirect w lp root)
                   \<and> store (snd (fix_mylzip_redirect w lp root)) = store w"
    using fix_navigation_fatal [of w lp root] by blast
  from a b c d e show ?thesis by blast
qed

lemma locked_server_connect: "\<not> raises (connect_phase locked_server)"
  by (simp add: connect_phase_raises locked_server_def refuse_mkd_root_def)

lemma locked_server_mkd: "raises (ftp_mkd locked_server config_remote_path)"
  by (simp add: ftp_mkd_def locked_server_def refuse_mkd_root_def)

theorem navigation_created_and_retried_once_witness:
  "raises (ftp_cwd fresh_server config_remote_path)
   \<and> \<not> raises (navigate fresh_server)
   \<and> fst (deploy fresh_server local_root (Some (Directory site_tree)))
   \<and> raises (ftp_cwd locked_server config_remote_path)
   \<and> raises (navigate locked_server)
   \<and> \<not> fst (deploy locked_server local_root (Some (Directory site_tree)))"
proof -
  have c: "raises (ftp_cwd fresh_server config_remote_path)" by (rule fresh_server_cwd_raises(1))
  have c': "raises (ftp_cwd locked_server config_remote_path)"
    by (simp add: ftp_cwd_def resolve_def lookup_def locked_server_def refuse_mkd_root_def
        config_remote_path_def split_path_def)
  note t = navigation_created_and_retried_once [OF c, of local_root "Some (Directory site_tree)"]
  note t' = navigation_created_and_retried_once [OF c', of local_root "Some (Directory site_tree)"]
  have p: "\<forall>x\<in>set site_tree. \<not> raises (is_file (snd x))" by (simp add: site_tree_def)
  from t fresh_server_connect fresh_server_deploy_navigate p
  have "fst (deploy fresh_server local_root (Some (Directory site_tree)))" by simp
  moreover from t' locked_server_mkd have n: "raises (navigate locked_server)" by blast
  moreover from t' n have "\<not> fst (deploy locked_server local_root (Some (Directory site_tree)))"
    by blast
  ultimately show ?thesis using c c' fresh_server_deploy_navigate by blast
qed

section \<open>Properties: a remote listing that fails\<close>











section \<open>Properties: a directory that cannot be created\<close>

lemma ftp_mkd_print:
  "ftp_mkd (py_print w s) p = map_sum id (\<lambda>w1. py_print w1 s) (ftp_mkd w p)"
  by (simp add: ftp_mkd_def py_print_def resolve_cong [of "w\<lparr>stdout := stdout w @ [s]\<rparr>" w]
      lookup_def)

lemma upload_directory_mkd_fails:
  assumes "ftp_mkd w rd = Inl ex"
  shows "upload_directory w (ld, d) rd =
           (False,
            py_print (py_print w (''   [DIR] Uploading directory '' @ basename ld @ ''...''))
              (''   [ERROR] Failed to upload directory '' @ ld @ '': '' @ str_exn ex))"
  using assms by (simp add: upload_directory.simps ftp_mkd_print Let_def)

lemma deploy_item_mkd_fails:
  assumes "isdir e" and "ftp_mkd w item = Inl ex"
  shows "deploy_item lp (s, t, w) (item, e) =
           Inr (s, t + 1,
            py_print
              (py_print w (''   [DIR] Uploading directory '' @ basename (lp @ ''/'' @ item) @ ''...''))
              (''   [ERROR] Failed to upload directory '' @ (lp @ ''/'' @ item) @ '': '' @ str_exn ex))"
  by (simp only: deploy_item_dir [OF assms(1)]
      upload_directory_mkd_fails [OF assms(2), of "lp @ ''/'' @ item" e] fst_conv snd_conv if_False)

lemma upload_items_mkd_fails:
  assumes "isdir e" and "ftp_mkd w (rd @ ''/'' @ item) = Inl ex"
  shows "upload_items w ld rd ((item, e) # es) =
           upload_items
             (py_print
               (py_print w (''   [DIR] Uploading directory '' @ basename (ld @ ''/'' @ item) @ ''...''))
               (''   [ERROR] Failed to upload directory '' @ (ld @ ''/'' @ item) @ '': '' @ str_exn ex))
             ld rd es"
proof -
  from assms(1) have "\<not> isfile e" by (cases e) simp_all
  with assms(1) upload_directory_mkd_fails [OF assms(2), of "ld @ ''/'' @ item" e]
  show ?thesis by (simp add: Let_def)
qed

lemma fix_item_mkd_fails:
  assumes "isdir e" and "ftp_mkd w item = Inl ex"
  shows "fix_item (s, t, w) (item, e) =
           Inr (s, t + 1,
            py_print (py_print w (''   [DIR] Uploading directory '' @ item @ ''...''))
              (''   [ERROR] Failed to upload directory '' @ item @ '': '' @ str_exn ex))"
  using assms(2) by (simp add: fix_item_dir [OF assms(1)] ftp_mkd_print)

text \<open>
  Claim C3, as stated: when \<^verbatim>\<open>mkd\<close> fails the traversal still goes into the
  directory. In both scripts \<^verbatim>\<open>mkd\<close> is inside the \<^verbatim>\<open>try\<close> that holds the loop over
  the directory, so its failure leaves the loop out. On a second deployment, with
  \<^verbatim>\<open>assets\<close> already on the server, \<^verbatim>\<open>assets/style.css\<close> is not uploaded.
\<close>

theorem existing_directory_skipped_counterexample:
  "raises (ftp_mkd site_with_assets ''assets'')
   \<and> lookup (final_world (deploy_loop local_root (0, 0, site_with_assets) site_tree))
        (site_root @ [''assets'', ''style.css'']) = None
   \<and> lookup (final_world (fix_loop (0, 0, site_with_assets) site_tree))
        (site_root @ [''assets'', ''style.css'']) = None"
  by code_simp


text \<open>
  Claim C3, amended: a directory entry whose \<^verbatim>\<open>mkd\<close> fails is logged (two lines are
  printed, the second the error), is not counted as succeeded, and leaves the server as it
  was: none of its entries is enumerated or uploaded. The traversal goes on with the next
  sibling, at the top level of both scripts and inside \<^verbatim>\<open>upload_directory\<close>.
\<close>

theorem failed_mkdir_skips_directory:
  assumes "isdir e" and "ftp_mkd w item = Inl ex"
  shows "upload_directory w (ld, e) item =
           (False,
            py_print (py_print w (''   [DIR] Uploading directory '' @ basename ld @ ''...''))
              (''   [ERROR] Failed to upload directory '' @ ld @ '': '' @ str_exn ex))
         \<and> deploy_loop lp (s, t, w) ((item, e) # es) =
             deploy_loop lp
               (s, t + 1,
                py_print
                  (py_print w
                    (''   [DIR] Uploading directory '' @ basename (lp @ ''/'' @ item) @ ''...''))
                  (''   [ERROR] Failed to upload directory '' @ (lp @ ''/'' @ item) @ '': ''
                     @ str_exn ex))
               es
         \<and> fix_loop (s, t, w) ((item, e) # es) =
             fix_loop
               (s, t + 1,
                py_print (py_print w (''   [DIR] Uploading directory '' @ item @ ''...''))
                  (''   [ERROR] Failed to upload directory '' @ item @ '': '' @ str_exn ex))
               es
         \<and> (\<forall>rd ex'. ftp_mkd w (rd @ ''/'' @ item) = Inl ex' \<longrightarrow>
              upload_items w ld rd ((item, e) # es) =
                upload_items
                  (py_print
                    (py_print w
                      (''   [DIR] Uploading directory '' @ basename (ld @ ''/'' @ item) @ ''...''))
                    (''   [ERROR] Failed to upload directory '' @ (ld @ ''/'' @ item) @ '': ''
                       @ str_exn ex'))
                  ld rd es)"
proof -
  note a = upload_directory_mkd_fails [OF assms(2), of ld e]
  have b: "deploy_loop lp (s, t, w) ((item, e) # es) =
             deploy_loop lp
               (s, t + 1,
                py_print
                  (py_print w
                    (''   [DIR] Uploading directory '' @ basename (lp @ ''/'' @ item) @ ''...''))
                  (''   [ERROR] Failed to upload directory '' @ (lp @ ''/'' @ item) @ '': ''
                     @ str_exn ex))
               es"
    by (simp only: deploy_loop.simps deploy_item_mkd_fails [OF assms] sum.case)
  have c: "fix_loop (s, t, w) ((item, e) # es) =
             fix_loop
               (s, t + 1,
                py_print (py_print w (''   [DIR] Uploading directory '' @ item @ ''...''))
                  (''   [ERROR] Failed to upload directory '' @ item @ '': '' @ str_exn ex))
               es"
    by (simp only: fix_loop.simps fix_item_mkd_fails [OF assms] sum.case)
  from a b c upload_items_mkd_fails [OF assms(1), of w _ item _ ld es]
  show ?thesis by blast
qed

lemma site_with_assets_mkd:
  "ftp_mkd site_with_assets ''assets'' = Inl (error_perm ''550 File exists'')"
  by (simp add: ftp_mkd_def resolve_def split_path_def lookup_def site_with_assets_def
      site_root_def no_refusal_def)

theorem failed_mkdir_skips_directory_witness:
  "isdir (Directory [(''style.css'', RegFile [97, 123, 125])])
   \<and> ftp_mkd site_with_assets ''assets'' = Inl (error_perm ''550 File exists'')
   \<and> upload_directory site_with_assets
        (''/srv/staging-deploy/assets'', Directory [(''style.css'', RegFile [97, 123, 125])])
        ''assets''
      = (False,
         py_print
           (py_print site_with_assets
              (''   [DIR] Uploading directory '' @ basename ''/srv/staging-deploy/assets'' @ ''...''))
           (''   [ERROR] Failed to upload directory '' @ ''/srv/staging-deploy/assets'' @ '': ''
              @ str_exn (error_perm ''550 File exists'')))"
proof -
  have d: "isdir (Directory [(''style.css'', RegFile [97, 123, 125])])" by simp
  from failed_mkdir_skips_directory [OF d site_with_assets_mkd] d site_with_assets_mkd
  show ?thesis by blast
qed

section \<open>Properties: a file that cannot be read\<close>


lemma raises_storbinary_print:
  "raises (ftp_storbinary (py_print w s) p f) = raises (ftp_storbinary w p f)"
  by (simp add: ftp_storbinary_def)

lemma unreadable_print [simp]: "unreadable (py_print w s) e rf = unreadable w e rf"
  by (simp add: unreadable_def raises_storbinary_print split: sum.splits)

lemma unreadable_open: "raises (open_rb e) \<Longrightarrow> unreadable w e rf"
  by (cases "open_rb e") (simp_all add: unreadable_def)











lemma upload_directory_entered:
  "ftp_mkd (py_print w (''   [DIR] Uploading directory '' @ basename ld @ ''...'')) rd = Inr w2 \<Longrightarrow>
   upload_directory w (ld, Directory es) rd =
     (True, upload_items (py_print w2 (''   [OK] Created remote directory '' @ rd)) ld rd es)"
  by (simp add: upload_directory.simps Let_def)









text \<open>The second scenario of the specification.\<close>

lemma scenario_unreadable_sibling:
  "succeeded (deploy_loop local_root (0, 0, empty_site) two_files_tree) = 1
   \<and> attempted (deploy_loop local_root (0, 0, empty_site) two_files_tree) = 2
   \<and> store (final_world (deploy_loop local_root (0, 0, empty_site) two_files_tree))
       = [(site_root, RDir), (site_root @ [''a.txt''], RFile [97])]"
  by code_simp

section \<open>Properties: remote paths\<close>

lemma split_acc_slash:
  "split_acc acc (xs @ CHR ''/'' # ys) = split_acc acc xs @ split_acc [] ys"
  by (induction xs arbitrary: acc) simp_all

lemma split_acc_name:
  "CHR ''/'' \<notin> set xs \<Longrightarrow> acc @ xs \<noteq> [] \<Longrightarrow> split_acc acc xs = [acc @ xs]"
  by (induction xs arbitrary: acc) auto

lemma split_acc_nonempty: "acc \<noteq> [] \<Longrightarrow> split_acc acc xs \<noteq> []"
  by (induction xs arbitrary: acc) simp_all

lemma split_path_name: "wf_name n \<Longrightarrow> split_path n = [n]"
  by (simp add: split_path_def wf_name_def split_acc_name)

lemma split_path_child: "wf_name n \<Longrightarrow> split_path (rd @ ''/'' @ n) = split_path rd @ [n]"
  by (simp add: split_path_def wf_name_def split_acc_slash split_acc_name)

lemma split_path_relative: "relative p \<Longrightarrow> split_path p \<noteq> []"
  by (cases p) (simp_all add: relative_def split_path_def split_acc_nonempty)

lemma relative_name: "wf_name n \<Longrightarrow> relative n"
  by (cases n) (auto simp add: wf_name_def relative_def)

lemma relative_child: "relative rd \<Longrightarrow> relative (rd @ ''/'' @ n)"
  by (cases rd) (simp_all add: relative_def)

lemma resolve_relative: "relative p \<Longrightarrow> resolve w p = cwd w @ split_path p"
  by (cases p) (simp_all add: relative_def resolve_def)

lemma resolve_name: "wf_name n \<Longrightarrow> resolve w n = cwd w @ [n]"
  by (simp add: resolve_relative relative_name split_path_name)

lemma resolve_child:
  assumes "relative rd" and "wf_name n"
  shows "resolve w (rd @ ''/'' @ n) = resolve w rd @ [n]"
proof -
  have "resolve w (rd @ ''/'' @ n) = cwd w @ split_path (rd @ ''/'' @ n)"
    by (rule resolve_relative [OF relative_child [OF assms(1)]])
  also have "\<dots> = cwd w @ split_path rd @ [n]"
    by (simp only: split_path_child [OF assms(2)])
  also have "\<dots> = resolve w rd @ [n]"
    by (simp only: resolve_relative [OF assms(1)] append_assoc)
  finally show ?thesis .
qed

lemma resolve_relative_nonempty: "relative p \<Longrightarrow> resolve w p \<noteq> []"
  by (simp add: resolve_relative split_path_relative)

lemma prefix_snoc_same: "prefix (k @ [a]) x \<Longrightarrow> prefix (k @ [b]) x \<Longrightarrow> a = b"
  by (auto simp add: prefix_def)

section \<open>Properties: the image of a tree\<close>

lemma dom_image:
  "dom (image_entry k e) \<subseteq> {x. prefix k x}"
  "dom (image_entries k es) \<subseteq> {x. \<exists>n \<in> fst ` set es. prefix (k @ [n]) x}"
proof (induction k e and k es rule: image_entry_image_entries.induct)
  case (2 k es)
  have "prefix (k @ [n]) x \<Longrightarrow> prefix k x" for n x
    using append_prefixD by blast
  with 2 show ?case by auto
next
  case (5 k n e es)
  then show ?case by auto
qed (auto split: if_splits)

lemma image_entry_outside: "\<not> prefix k x \<Longrightarrow> image_entry k e x = None"
  using dom_image(1) [of k e] by blast

lemma image_entries_outside:
  "\<forall>n \<in> fst ` set es. \<not> prefix (k @ [n]) x \<Longrightarrow> image_entries k es x = None"
  using dom_image(2) [of k es] by blast

section \<open>Properties: one successful command\<close>

lemma lookup_store_update [simp]:
  "lookup (w\<lparr>store := AList.update k v (store w)\<rparr>) = (lookup w)(k \<mapsto> v)"
  by (rule ext) (simp add: lookup_def update_conv')

lemma ftp_mkd_accepted:
  assumes "accepting w" and "resolve w p \<noteq> []" and "lookup w (resolve w p) = None"
  shows "ftp_mkd w p = Inr (w\<lparr>store := AList.update (resolve w p) RDir (store w)\<rparr>)"
  using assms by (simp add: ftp_mkd_def accepting_def)

lemma ftp_storbinary_accepted:
  assumes "accepting w" and "resolve w p \<noteq> []" and "lookup w (resolve w p) \<noteq> Some RDir"
  shows "ftp_storbinary w p f
           = Inr (w\<lparr>store := AList.update (resolve w p) (RFile f) (store w)\<rparr>)"
  using assms by (simp add: ftp_storbinary_def accepting_def)

lemma accepting_print [simp]: "accepting (py_print w s) = accepting w"
  by (simp add: accepting_def)

lemma upload_file_accepted:
  assumes "accepting w" and "resolve w rf \<noteq> []" and "lookup w (resolve w rf) \<noteq> Some RDir"
  shows "fst (upload_file w (p, RegFile b) rf)
         \<and> lookup (snd (upload_file w (p, RegFile b) rf)) = (lookup w)(resolve w rf \<mapsto> RFile b)
         \<and> cwd (snd (upload_file w (p, RegFile b) rf)) = cwd w
         \<and> refused (snd (upload_file w (p, RegFile b) rf)) = refused w"
proof -
  let ?w1 = "py_print w (''   [FILE] Uploading '' @ basename p @ ''...'')"
  from assms have "ftp_storbinary ?w1 rf b
           = Inr (?w1\<lparr>store := AList.update (resolve ?w1 rf) (RFile b) (store ?w1)\<rparr>)"
    by (intro ftp_storbinary_accepted) simp_all
  then show ?thesis
    by (simp add: upload_file_def Let_def fun_eq_iff lookup_def update_conv')
qed

section \<open>Properties: the recursive upload copies the tree\<close>

lemma lookup_py_print_fun [simp]: "lookup (py_print w s) = lookup w"
  by (rule ext) simp

lemma uploaded_refl: "uploaded w w Map.empty"
  by (simp add: uploaded_def)

lemma uploaded_trans:
  "uploaded w w1 m1 \<Longrightarrow> uploaded w1 w2 m2 \<Longrightarrow> uploaded w w2 (m1 ++ m2)"
  by (simp add: uploaded_def)

lemma uploaded_print_right [simp]: "uploaded w (py_print w' s) m = uploaded w w' m"
  by (simp add: uploaded_def)

lemma uploaded_print_left [simp]: "uploaded (py_print w s) w' m = uploaded w w' m"
  by (simp add: uploaded_def)

lemma uploaded_accepting: "uploaded w w' m \<Longrightarrow> accepting w' = accepting w"
  by (simp add: uploaded_def accepting_def)

lemma uploaded_resolve: "uploaded w w' m \<Longrightarrow> resolve w' p = resolve w p"
  by (rule resolve_cong) (simp add: uploaded_def)

lemma vacant_print [simp]: "vacant (py_print w s) k = vacant w k"
  by (simp add: vacant_def)

lemma vacant_self: "vacant w k \<Longrightarrow> lookup w k = None"
  by (auto simp add: vacant_def)

lemma vacant_after:
  assumes "uploaded w w' m" and "vacant w k" and "\<forall>x \<in> dom m. \<not> prefix k x"
  shows "vacant w' k"
  unfolding vacant_def
proof (intro allI impI)
  fix x
  assume n: "lookup w' x \<noteq> None"
  from assms(1) have "lookup w' x = (lookup w ++ m) x" by (simp add: uploaded_def)
  with n have "m x \<noteq> None \<or> lookup w x \<noteq> None"
    by (cases "m x") (simp_all add: map_add_def)
  with assms(2,3) show "\<not> prefix k x" by (auto simp add: vacant_def)
qed

lemma vacant_below_sibling:
  assumes "uploaded w w' (image_entry (k @ [a]) e)" and "vacant w (k @ [b])" and "a \<noteq> b"
  shows "vacant w' (k @ [b])"
proof (rule vacant_after [OF assms(1,2)], rule ballI)
  fix x
  assume "x \<in> dom (image_entry (k @ [a]) e)"
  with dom_image(1) [of "k @ [a]" e] have "prefix (k @ [a]) x" by blast
  with assms(3) show "\<not> prefix (k @ [b]) x" using prefix_snoc_same [of k a x b] by blast
qed

lemma vacant_below_new_directory:
  assumes "uploaded w w' [k \<mapsto> RDir]" and "vacant w k"
  shows "vacant w' (k @ [n])"
  unfolding vacant_def
proof (intro allI impI)
  fix x
  assume n: "lookup w' x \<noteq> None"
  from assms(1) have "lookup w' x = (lookup w ++ [k \<mapsto> RDir]) x" by (simp add: uploaded_def)
  with n have "x = k \<or> lookup w x \<noteq> None"
    by (cases "x = k") simp_all
  then show "\<not> prefix (k @ [n]) x"
  proof
    assume "x = k"
    then show ?thesis by simp
  next
    assume "lookup w x \<noteq> None"
    with assms(2) have "\<not> prefix k x" by (simp add: vacant_def)
    then show ?thesis using append_prefixD by blast
  qed
qed

lemma upload_file_uploaded:
  assumes "accepting w" and "resolve w rf \<noteq> []" and "vacant w (resolve w rf)"
  shows "fst (upload_file w (p, RegFile b) rf)
         \<and> uploaded w (snd (upload_file w (p, RegFile b) rf)) [resolve w rf \<mapsto> RFile b]"
proof -
  from vacant_self [OF assms(3)] have "lookup w (resolve w rf) \<noteq> Some RDir" by simp
  from upload_file_accepted [OF assms(1,2) this, of p b] show ?thesis
    by (simp add: uploaded_def)
qed

lemma mkd_uploaded:
  assumes "accepting w" and "resolve w p \<noteq> []" and "vacant w (resolve w p)"
  shows "\<exists>w1. ftp_mkd w p = Inr w1 \<and> uploaded w w1 [resolve w p \<mapsto> RDir]"
  using ftp_mkd_accepted [OF assms(1,2) vacant_self [OF assms(3)]]
  by (simp add: uploaded_def)


lemma upload_copies:
  "accepting w \<longrightarrow> relative rd \<longrightarrow> isdir (snd ld) \<longrightarrow> wf_entry (snd ld) \<longrightarrow> readable_entry (snd ld)
     \<longrightarrow> vacant w (resolve w rd)
     \<longrightarrow> fst (upload_directory w ld rd)
         \<and> uploaded w (snd (upload_directory w ld rd)) (image_entry (resolve w rd) (snd ld))"
  "accepting w \<longrightarrow> relative rp \<longrightarrow> wf_entries es \<longrightarrow> readable_entries es
     \<longrightarrow> (\<forall>n \<in> fst ` set es. vacant w (resolve w rp @ [n]))
     \<longrightarrow> uploaded w (upload_items w lp rp es) (image_entries (resolve w rp) es)"
proof (induction w ld rd and w lp rp es rule: upload_directory_upload_items.induct)
  case (1 w local_dir d remote_dir)
  show ?case
  proof (intro impI)
    assume acc: "accepting w" and rel: "relative remote_dir"
      and dir: "isdir (snd (local_dir, d))" and wf: "wf_entry (snd (local_dir, d))"
      and rd: "readable_entry (snd (local_dir, d))" and vac: "vacant w (resolve w remote_dir)"
    from dir rd obtain es where d: "d = Directory es" by (cases d) simp_all
    let ?m = "''   [DIR] Uploading directory '' @ basename local_dir @ ''...''"
    let ?k = "''   [OK] Created remote directory '' @ remote_dir"
    let ?p = "resolve w remote_dir"
    from acc rel vac have "\<exists>w1. ftp_mkd (py_print w ?m) remote_dir = Inr w1
        \<and> uploaded (py_print w ?m) w1 [resolve (py_print w ?m) remote_dir \<mapsto> RDir]"
      by (intro mkd_uploaded) (simp_all add: resolve_relative_nonempty)
    then obtain w2 where mk: "ftp_mkd (py_print w ?m) remote_dir = Inr w2"
      and u2: "uploaded w w2 [?p \<mapsto> RDir]" by auto
    from uploaded_accepting [OF u2] acc have acc3: "accepting (py_print w2 ?k)" by simp
    note r2 = uploaded_resolve [OF u2, of remote_dir]
    from r2 have r3: "resolve (py_print w2 ?k) remote_dir = ?p" by simp
    have v3: "\<forall>n \<in> fst ` set es. vacant (py_print w2 ?k) (resolve (py_print w2 ?k) remote_dir @ [n])"
      using vacant_below_new_directory [OF u2 vac] by (simp add: r2)
    from wf rd d have "wf_entries es" "readable_entries es" by simp_all
    with "1.IH" [OF refl mk refl d] acc3 rel v3
    have "uploaded (py_print w2 ?k) (upload_items (py_print w2 ?k) local_dir remote_dir es)
            (image_entries ?p es)"
      by (simp only: r3)
    then have "uploaded w2 (upload_items (py_print w2 ?k) local_dir remote_dir es)
            (image_entries ?p es)" by simp
    from uploaded_trans [OF u2 this] upload_directory_entered [OF mk, of es]
    show "fst (upload_directory w (local_dir, d) remote_dir)
         \<and> uploaded w (snd (upload_directory w (local_dir, d) remote_dir))
             (image_entry (resolve w remote_dir) (snd (local_dir, d)))"
      by (simp add: d)
  qed
next
  case (2 w local_dir remote_dir)
  show ?case by (simp add: uploaded_refl)
next
  case (3 w local_dir remote_dir item e es)
  show ?case
  proof (intro impI)
    assume acc: "accepting w" and rel: "relative remote_dir"
      and wf: "wf_entries ((item, e) # es)" and rd: "readable_entries ((item, e) # es)"
      and vac: "\<forall>n \<in> fst ` set ((item, e) # es). vacant w (resolve w remote_dir @ [n])"
    let ?p = "resolve w remote_dir"
    let ?lp = "(local_dir @ ''/'' @ item, e)"
    let ?rp = "remote_dir @ ''/'' @ item"
    let ?w1 = "if isfile e then snd (upload_file w ?lp ?rp)
               else if isdir e then snd (upload_directory w ?lp ?rp) else w"
    from wf have wn: "wf_name item" and fresh: "item \<notin> fst ` set es"
      and wfe: "wf_entry e" and wfs: "wf_entries es" by simp_all
    from rd have rde: "readable_entry e" and rds: "readable_entries es" by simp_all
    have rc0: "resolve w ?rp = ?p @ [item]" by (rule resolve_child [OF rel wn])
    then have rc: "resolve w (remote_dir @ CHR ''/'' # item) = ?p @ [item]" by simp
    from vac have vi: "vacant w (resolve w ?rp)" by (simp add: rc)
    have relc: "relative ?rp" by (rule relative_child [OF rel])
    have step: "uploaded w ?w1 (image_entry (?p @ [item]) e)"
    proof (cases e)
      case (RegFile b)
      from upload_file_uploaded [OF acc resolve_relative_nonempty [OF relc] vi, of "local_dir @ ''/'' @ item" b]
      show ?thesis by (simp add: RegFile rc)
    next
      case (Directory cs)
      then have nf: "\<not> isfile e" and d: "isdir e" by simp_all
      from "3.IH"(1) [OF refl refl nf d] acc relc d wfe rde vi
      show ?thesis by (simp add: nf rc)
    next
      case Special
      then show ?thesis by (simp add: uploaded_refl)
    qed (use rde in simp_all)
    have acc1: "accepting ?w1" using uploaded_accepting [OF step] acc by simp
    have r1: "resolve ?w1 remote_dir = ?p" by (rule uploaded_resolve [OF step])
    have v1: "\<forall>n \<in> fst ` set es. vacant ?w1 (resolve ?w1 remote_dir @ [n])"
    proof
      fix n
      assume n: "n \<in> fst ` set es"
      with fresh have "item \<noteq> n" by blast
      moreover from vac n have "vacant w (?p @ [n])" by auto
      ultimately show "vacant ?w1 (resolve ?w1 remote_dir @ [n])"
        using vacant_below_sibling [OF step] by (simp only: r1)
    qed
    from "3.IH"(2) [OF refl refl] acc1 rel wfs rds v1
    have "uploaded ?w1 (upload_items ?w1 local_dir remote_dir es) (image_entries ?p es)"
      by (simp only: r1)
    note u = uploaded_trans [OF step this]
    have eq: "upload_items w local_dir remote_dir ((item, e) # es)
                = upload_items ?w1 local_dir remote_dir es"
      by (simp add: Let_def)
    have im: "image_entries ?p ((item, e) # es)
                = image_entry (?p @ [item]) e ++ image_entries ?p es"
      by simp
    from u show "uploaded w (upload_items w local_dir remote_dir ((item, e) # es))
            (image_entries (resolve w remote_dir) ((item, e) # es))"
      by (simp only: eq im)
  qed
qed


section \<open>Properties: the image of a tree, path by path\<close>

lemma map_add_left_None: "m1 x = None \<Longrightarrow> (m1 ++ m2) x = m2 x"
  by (cases "m2 x") (simp_all add: map_add_def)

lemma map_add_right_None: "m2 x = None \<Longrightarrow> (m1 ++ m2) x = m1 x"
  by (simp add: map_add_def)

lemma not_prefix_child: "\<not> prefix (k @ [n]) k"
  by (simp add: prefix_def)

lemma prefix_child_iff: "prefix (k @ [n]) (k @ p # ps) = (n = p)"
  by (auto simp add: prefix_def)

lemma remote_image_here:
  "remote_image ((n, e) # es) (n # ps) =
     (if ps = [] then remote_node_of e
      else (case e of Directory cs \<Rightarrow> remote_image cs ps | _ \<Rightarrow> None))"
  by (cases e) (simp_all add: remote_image_def)

lemma remote_image_there:
  "p \<noteq> n \<Longrightarrow> remote_image ((n, e) # es) (p # ps) = remote_image es (p # ps)"
  by (simp add: remote_image_def)

lemma image_lookup:
  "wf_entry e \<longrightarrow>
     image_entry k e (k @ ps) =
       (if ps = [] then remote_node_of e
        else (case e of Directory cs \<Rightarrow> remote_image cs ps | _ \<Rightarrow> None))"
  "wf_entries es \<longrightarrow> (\<forall>p ps. image_entries k es (k @ p # ps) = remote_image es (p # ps))"
proof (induction k e and k es arbitrary: ps rule: image_entry_image_entries.induct)
  case (2 k es)
  show ?case
  proof
    assume wf: "wf_entry (Directory es)"
    show "image_entry k (Directory es) (k @ ps) =
       (if ps = [] then remote_node_of (Directory es)
        else (case Directory es of Directory cs \<Rightarrow> remote_image cs ps | _ \<Rightarrow> None))"
    proof (cases ps)
      case Nil
      have "image_entries k es k = None"
        by (rule image_entries_outside) (simp add: not_prefix_child)
      then show ?thesis by (simp add: Nil map_add_right_None)
    next
      case (Cons p ps')
      from 2 wf have "image_entries k es (k @ p # ps') = remote_image es (p # ps')" by simp
      moreover have "[k \<mapsto> RDir] (k @ p # ps') = None" by simp
      ultimately show ?thesis by (simp add: Cons map_add_left_None)
    qed
  qed
next
  case (4 k)
  show ?case by (simp add: remote_image_def)
next
  case (5 k n e es)
  show ?case
  proof (intro impI allI)
    fix p ps
    assume wf: "wf_entries ((n, e) # es)"
    then have fresh: "n \<notin> fst ` set es" and wfe: "wf_entry e" and wfs: "wf_entries es"
      by simp_all
    show "image_entries k ((n, e) # es) (k @ p # ps) = remote_image ((n, e) # es) (p # ps)"
    proof (cases "p = n")
      case True
      have "image_entries k es (k @ n # ps) = None"
        using fresh by (intro image_entries_outside) (auto simp add: prefix_child_iff)
      then have "image_entries k ((n, e) # es) (k @ n # ps) = image_entry (k @ [n]) e ((k @ [n]) @ ps)"
        by (simp add: map_add_right_None)
      also from "5.IH"(1) [of ps] wfe have "\<dots> =
         (if ps = [] then remote_node_of e
          else (case e of Directory cs \<Rightarrow> remote_image cs ps | _ \<Rightarrow> None))"
        by blast
      finally show ?thesis by (simp only: True remote_image_here)
    next
      case False
      then have "image_entry (k @ [n]) e (k @ p # ps) = None"
        by (intro image_entry_outside) (simp add: prefix_child_iff)
      then have "image_entries k ((n, e) # es) (k @ p # ps) = image_entries k es (k @ p # ps)"
        by (simp add: map_add_left_None)
      with "5.IH"(2) wfs False show ?thesis by (simp add: remote_image_there)
    qed
  qed
qed (simp_all split: list.splits)

lemma wf_entries_filter: "wf_entries es \<Longrightarrow> wf_entries (filter P es)"
  by (induction es) auto

lemma wf_entries_two_levels: "wf_entries es \<Longrightarrow> wf_entries (two_levels es)"
proof (induction es)
  case Nil
  show ?case by (simp add: two_levels_def)
next
  case (Cons x es)
  obtain n e where x: "x = (n, e)" by (cases x)
  from Cons.prems x have "wf_entry (first_level e)"
    by (cases e) (simp_all add: wf_entries_filter)
  moreover have "fst ` set (two_levels es) = fst ` set es"
    by (force simp add: two_levels_def)
  ultimately show ?case using Cons x by (simp add: two_levels_def)
qed

lemma remote_empty_vacant: "remote_empty w \<Longrightarrow> vacant w (cwd w @ [n])"
  unfolding vacant_def remote_empty_def
proof (intro allI impI)
  fix x
  assume e: "\<forall>k \<in> fst ` set (store w). \<not> strict_prefix (cwd w) k" and l: "lookup w x \<noteq> None"
  from l have "x \<in> fst ` set (store w)"
    by (simp add: lookup_def map_of_eq_None_iff)
  with e have "\<not> strict_prefix (cwd w) x" by blast
  then show "\<not> prefix (cwd w @ [n]) x"
    by (auto simp add: prefix_def strict_prefix_def)
qed


section \<open>Properties: the top-level loops copy the tree\<close>

lemma uploaded_cwd: "uploaded w w' m \<Longrightarrow> cwd w' = cwd w"
  by (simp add: uploaded_def)

lemma storbinary_uploaded:
  assumes "accepting w" and "resolve w p \<noteq> []" and "vacant w (resolve w p)"
  shows "\<exists>w1. ftp_storbinary w p f = Inr w1 \<and> uploaded w w1 [resolve w p \<mapsto> RFile f]"
proof -
  from vacant_self [OF assms(3)] have "lookup w (resolve w p) \<noteq> Some RDir" by simp
  from ftp_storbinary_accepted [OF assms(1,2) this, of f] show ?thesis
    by (simp add: uploaded_def)
qed

lemma deploy_item_copies:
  assumes "accepting w" and "wf_name item" and "wf_entry e" and "readable_entry e"
    and "vacant w (cwd w @ [item])"
  shows "\<exists>s' w'. deploy_item lp (s, t, w) (item, e) = Inr (s', t + 1, w')
           \<and> uploaded w w' (image_entry (cwd w @ [item]) e)"
proof -
  note r = resolve_name [OF assms(2), of w]
  from assms(5) have v: "vacant w (resolve w item)" by (simp only: r)
  have ne: "resolve w item \<noteq> []" by (simp add: r)
  show ?thesis
  proof (cases e)
    case (RegFile b)
    from upload_file_uploaded [OF assms(1) ne v, of "lp @ ''/'' @ item" b]
    show ?thesis by (simp add: RegFile deploy_item_file r)
  next
    case (Directory cs)
    from upload_copies(1) [of w item "(lp @ ''/'' @ item, e)"] assms(1,3,4) v
      relative_name [OF assms(2)]
    have "uploaded w (snd (upload_directory w (lp @ ''/'' @ item, e) item))
            (image_entry (resolve w item) e)"
      by (simp add: Directory)
    then show ?thesis by (simp add: Directory deploy_item_dir r)
  next
    case Special
    then show ?thesis by (simp add: deploy_item_other uploaded_refl)
  qed (use assms(4) in simp_all)
qed

lemma deploy_loop_copies:
  "accepting w \<Longrightarrow> wf_entries es \<Longrightarrow> readable_entries es \<Longrightarrow>
   \<forall>n \<in> fst ` set es. vacant w (cwd w @ [n]) \<Longrightarrow>
   \<not> raises (deploy_loop lp (s, t, w) es)
   \<and> uploaded w (final_world (deploy_loop lp (s, t, w) es)) (image_entries (cwd w) es)"
proof (induction es arbitrary: s t w)
  case Nil
  show ?case by (simp add: uploaded_refl)
next
  case (Cons x es)
  obtain item e where x: "x = (item, e)" by (cases x)
  from Cons.prems(2) x have wn: "wf_name item" and fresh: "item \<notin> fst ` set es"
    and wfe: "wf_entry e" and wfs: "wf_entries es" by simp_all
  from Cons.prems(3) x have rde: "readable_entry e" and rds: "readable_entries es" by simp_all
  from Cons.prems(4) x have vi: "vacant w (cwd w @ [item])" by simp
  from deploy_item_copies [OF Cons.prems(1) wn wfe rde vi, of lp s t] obtain s' w1
    where i: "deploy_item lp (s, t, w) (item, e) = Inr (s', t + 1, w1)"
      and u: "uploaded w w1 (image_entry (cwd w @ [item]) e)" by blast
  note c = uploaded_cwd [OF u]
  from uploaded_accepting [OF u] Cons.prems(1) have acc1: "accepting w1" by simp
  have v1: "\<forall>n \<in> fst ` set es. vacant w1 (cwd w1 @ [n])"
  proof
    fix n
    assume n: "n \<in> fst ` set es"
    with fresh have "item \<noteq> n" by blast
    moreover from Cons.prems(4) n have "vacant w (cwd w @ [n])" by auto
    ultimately show "vacant w1 (cwd w1 @ [n])"
      using vacant_below_sibling [OF u] by (simp only: c)
  qed
  from Cons.IH [OF acc1 wfs rds v1, of s' "t + 1", unfolded c]
  have r: "\<not> raises (deploy_loop lp (s', t + 1, w1) es)"
    and u1: "uploaded w1 (final_world (deploy_loop lp (s', t + 1, w1) es)) (image_entries (cwd w) es)"
    by blast+
  have eq: "deploy_loop lp (s, t, w) (x # es) = deploy_loop lp (s', t + 1, w1) es"
    by (simp add: x i)
  have im: "image_entries (cwd w) (x # es)
              = image_entry (cwd w @ [item]) e ++ image_entries (cwd w) es"
    by (simp add: x)
  from r uploaded_trans [OF u u1] show ?case by (simp only: eq im simp_thms)
qed

lemma fix_subitems_copies:
  "accepting w \<Longrightarrow> relative item \<Longrightarrow> wf_entries es \<Longrightarrow> readable_entries es \<Longrightarrow>
   \<forall>n \<in> fst ` set es. vacant w (resolve w item @ [n]) \<Longrightarrow>
   \<exists>w'. fix_subitems w item es = Inr w'
     \<and> uploaded w w' (image_entries (resolve w item) (filter (\<lambda>x. isfile (snd x)) es))"
proof (induction es arbitrary: w)
  case Nil
  show ?case by (simp add: uploaded_refl)
next
  case (Cons x es)
  obtain sub e where x: "x = (sub, e)" by (cases x)
  let ?k = "resolve w item"
  from Cons.prems(3) x have wn: "wf_name sub" and fresh: "sub \<notin> fst ` set es"
    and wfs: "wf_entries es" by simp_all
  from Cons.prems(4) x have rde: "readable_entry e" and rds: "readable_entries es" by simp_all
  from Cons.prems(5) x have vi: "vacant w (?k @ [sub])"
    and vs: "\<forall>n \<in> fst ` set es. vacant w (?k @ [n])" by simp_all
  show ?case
  proof (cases "isfile e")
    case True
    with rde obtain b where e: "e = RegFile b" by (cases e) simp_all
    have rc: "resolve w (item @ ''/'' @ sub) = ?k @ [sub]"
      by (rule resolve_child [OF Cons.prems(2) wn])
    have ne: "resolve w (item @ ''/'' @ sub) \<noteq> []" by (simp only: rc) simp
    from vi have v: "vacant w (resolve w (item @ ''/'' @ sub))" by (simp only: rc)
    from storbinary_uploaded [OF Cons.prems(1) ne v, of b] obtain w1
      where st: "ftp_storbinary w (item @ ''/'' @ sub) b = Inr w1"
        and u: "uploaded w w1 (image_entry (?k @ [sub]) e)"
      by (auto simp only: rc e image_entry.simps)
    note r1 = uploaded_resolve [OF u, of item]
    from uploaded_accepting [OF u] Cons.prems(1) have acc1: "accepting w1" by simp
    have v1: "\<forall>n \<in> fst ` set es. vacant w1 (resolve w1 item @ [n])"
    proof
      fix n
      assume n: "n \<in> fst ` set es"
      with fresh have "sub \<noteq> n" by blast
      moreover from vs n have "vacant w (?k @ [n])" by auto
      ultimately show "vacant w1 (resolve w1 item @ [n])"
        using vacant_below_sibling [OF u] by (simp only: r1)
    qed
    from Cons.IH [OF acc1 Cons.prems(2) wfs rds v1] obtain w2
      where f: "fix_subitems w1 item es = Inr w2"
        and u2: "uploaded w1 w2 (image_entries ?k (filter (\<lambda>x. isfile (snd x)) es))"
      by (auto simp only: r1)
    have eq: "fix_subitems w item (x # es) = Inr w2"
      using st f by (simp add: x e)
    have im: "image_entries ?k (filter (\<lambda>x. isfile (snd x)) (x # es))
                = image_entry (?k @ [sub]) e ++ image_entries ?k (filter (\<lambda>x. isfile (snd x)) es)"
      by (simp add: x e)
    from uploaded_trans [OF u u2] show ?thesis by (simp only: eq im) simp
  next
    case False
    with rde have p: "is_file e = Inr False" by (cases e) simp_all
    from Cons.IH [OF Cons.prems(1,2) wfs rds vs] False p show ?thesis by (simp add: x)
  qed
qed

lemma fix_item_copies:
  assumes "accepting w" and "wf_name item" and "wf_entry e" and "readable_entry e"
    and "vacant w (cwd w @ [item])"
  shows "\<exists>s' w'. fix_item (s, t, w) (item, e) = Inr (s', t + 1, w')
           \<and> uploaded w w' (image_entry (cwd w @ [item]) (first_level e))"
proof -
  note r = resolve_name [OF assms(2), of w]
  show ?thesis
  proof (cases e)
    case (RegFile b)
    let ?w1 = "py_print w (''   [FILE] Uploading '' @ item @ ''...'')"
    from assms(1,5) have "\<exists>w2. ftp_storbinary ?w1 item b = Inr w2
        \<and> uploaded ?w1 w2 [resolve ?w1 item \<mapsto> RFile b]"
      by (intro storbinary_uploaded) (simp_all add: r)
    then obtain w2 where st: "ftp_storbinary ?w1 item b = Inr w2"
      and u: "uploaded w w2 [cwd w @ [item] \<mapsto> RFile b]" by (auto simp add: r)
    from st u show ?thesis by (simp add: RegFile fix_item_file)
  next
    case (Directory cs)
    let ?w1 = "py_print w (''   [DIR] Uploading directory '' @ item @ ''...'')"
    let ?k = "cwd w @ [item]"
    from assms(1,5) have "\<exists>w2. ftp_mkd ?w1 item = Inr w2
        \<and> uploaded ?w1 w2 [resolve ?w1 item \<mapsto> RDir]"
      by (intro mkd_uploaded) (simp_all add: r)
    then obtain w2 where mk: "ftp_mkd ?w1 item = Inr w2"
      and u: "uploaded w w2 [?k \<mapsto> RDir]" by (auto simp add: r)
    have r2: "resolve w2 item = ?k" using uploaded_resolve [OF u, of item] by (simp only: r)
    from uploaded_accepting [OF u] assms(1) have acc2: "accepting w2" by simp
    have v2: "\<forall>n \<in> fst ` set cs. vacant w2 (resolve w2 item @ [n])"
      using vacant_below_new_directory [OF u assms(5)] by (simp only: r2) simp
    from assms(3,4) Directory have "wf_entries cs" "readable_entries cs" by simp_all
    from fix_subitems_copies [OF acc2 relative_name [OF assms(2)] this v2] obtain w3
      where f: "fix_subitems w2 item cs = Inr w3"
        and u3: "uploaded w2 w3 (image_entries ?k (filter (\<lambda>x. isfile (snd x)) cs))"
      by (auto simp only: r2)
    from uploaded_trans [OF u u3] mk f show ?thesis
      by (simp add: Directory fix_item_dir)
  next
    case Special
    then show ?thesis by (simp add: fix_item_other uploaded_refl)
  qed (use assms(4) in simp_all)
qed

lemma fix_loop_copies:
  "accepting w \<Longrightarrow> wf_entries es \<Longrightarrow> readable_entries es \<Longrightarrow>
   \<forall>n \<in> fst ` set es. vacant w (cwd w @ [n]) \<Longrightarrow>
   \<not> raises (fix_loop (s, t, w) es)
   \<and> uploaded w (final_world (fix_loop (s, t, w) es)) (image_entries (cwd w) (two_levels es))"
proof (induction es arbitrary: s t w)
  case Nil
  show ?case by (simp add: uploaded_refl two_levels_def)
next
  case (Cons x es)
  obtain item e where x: "x = (item, e)" by (cases x)
  from Cons.prems(2) x have wn: "wf_name item" and fresh: "item \<notin> fst ` set es"
    and wfe: "wf_entry e" and wfs: "wf_entries es" by simp_all
  from Cons.prems(3) x have rde: "readable_entry e" and rds: "readable_entries es" by simp_all
  from Cons.prems(4) x have vi: "vacant w (cwd w @ [item])" by simp
  from fix_item_copies [OF Cons.prems(1) wn wfe rde vi, of s t] obtain s' w1
    where i: "fix_item (s, t, w) (item, e) = Inr (s', t + 1, w1)"
      and u: "uploaded w w1 (image_entry (cwd w @ [item]) (first_level e))" by blast
  note c = uploaded_cwd [OF u]
  from uploaded_accepting [OF u] Cons.prems(1) have acc1: "accepting w1" by simp
  have v1: "\<forall>n \<in> fst ` set es. vacant w1 (cwd w1 @ [n])"
  proof
    fix n
    assume n: "n \<in> fst ` set es"
    with fresh have "item \<noteq> n" by blast
    moreover from Cons.prems(4) n have "vacant w (cwd w @ [n])" by auto
    ultimately show "vacant w1 (cwd w1 @ [n])"
      using vacant_below_sibling [OF u] by (simp only: c)
  qed
  from Cons.IH [OF acc1 wfs rds v1, of s' "t + 1", unfolded c]
  have r: "\<not> raises (fix_loop (s', t + 1, w1) es)"
    and u1: "uploaded w1 (final_world (fix_loop (s', t + 1, w1) es))
               (image_entries (cwd w) (two_levels es))"
    by blast+
  have eq: "fix_loop (s, t, w) (x # es) = fix_loop (s', t + 1, w1) es"
    by (simp add: x i)
  have im: "image_entries (cwd w) (two_levels (x # es))
              = image_entry (cwd w @ [item]) (first_level e) ++ image_entries (cwd w) (two_levels es)"
    by (simp add: x two_levels_def)
  from r uploaded_trans [OF u u1] show ?case by (simp only: eq im simp_thms)
qed


section \<open>Properties: the remote tree after the upload pass\<close>

lemma remote_empty_below: "remote_empty w \<Longrightarrow> lookup w (cwd w @ p # ps) = None"
proof -
  assume "remote_empty w"
  from remote_empty_vacant [OF this, of p] have "vacant w (cwd w @ [p])" .
  moreover have "prefix (cwd w @ [p]) (cwd w @ p # ps)" by (simp add: prefix_child_iff)
  ultimately show ?thesis unfolding vacant_def by blast
qed

lemma prefix_child_strict: "prefix (k @ [n]) x \<Longrightarrow> strict_prefix k x"
  by (auto simp add: prefix_def strict_prefix_def)

lemma copies_pointwise:
  assumes "remote_empty w" and "wf_entries es" and "uploaded w w' (image_entries (cwd w) es)"
  shows "\<forall>ps. ps \<noteq> [] \<longrightarrow> lookup w' (cwd w @ ps) = remote_image es ps"
    and "\<forall>k. \<not> strict_prefix (cwd w) k \<longrightarrow> lookup w' k = lookup w k"
proof -
  from assms(3) have l: "lookup w' = lookup w ++ image_entries (cwd w) es"
    by (simp add: uploaded_def)
  show "\<forall>ps. ps \<noteq> [] \<longrightarrow> lookup w' (cwd w @ ps) = remote_image es ps"
  proof (intro allI impI)
    fix ps :: "string list"
    assume "ps \<noteq> []"
    then obtain p ps' where ps: "ps = p # ps'" by (cases ps) simp_all
    from image_lookup(2) [of es "cwd w"] assms(2)
    have "image_entries (cwd w) es (cwd w @ p # ps') = remote_image es (p # ps')" by blast
    moreover note remote_empty_below [OF assms(1), of p ps']
    ultimately show "lookup w' (cwd w @ ps) = remote_image es ps"
      by (simp add: l ps map_add_left_None)
  qed
  show "\<forall>k. \<not> strict_prefix (cwd w) k \<longrightarrow> lookup w' k = lookup w k"
  proof (intro allI impI)
    fix k
    assume "\<not> strict_prefix (cwd w) k"
    then have "\<forall>n \<in> fst ` set es. \<not> prefix (cwd w @ [n]) k"
      using prefix_child_strict [of "cwd w" _ k] by blast
    from image_entries_outside [OF this] show "lookup w' k = lookup w k"
      by (simp add: l map_add_right_None)
  qed
qed

lemma remote_image_file:
  "local_lookup es ps = Some (RegFile b) \<Longrightarrow> ps \<noteq> [] \<and> remote_image es ps = Some (RFile b)"
  by (cases ps) (simp_all add: remote_image_def)

lemma remote_image_directory:
  "local_lookup es ps = Some (Directory cs) \<Longrightarrow> ps \<noteq> [] \<and> remote_image es ps = Some RDir"
  by (cases ps) (simp_all add: remote_image_def)

lemma empty_site_facts:
  "accepting empty_site" "remote_empty empty_site" "cwd empty_site = site_root"
  by (simp_all add: accepting_def remote_empty_def empty_site_def no_refusal_def)

text \<open>
  Claim C1, as stated, covers both scripts. The loop of \<^verbatim>\<open>fix-mylzip-redirect.py\<close>
  (lines 77 to 91) does not recurse: inside a top-level directory it uploads the files and
  skips the directories. With the file \<^verbatim>\<open>a/b/c.txt\<close> two directories below the root, no
  failure occurs, and neither the directory \<^verbatim>\<open>a/b\<close> nor the file is on the server at the end.
\<close>

theorem fix_does_not_recurse_counterexample:
  "accepting empty_site \<and> remote_empty empty_site
   \<and> wf_entries deep_tree \<and> readable_entries deep_tree
   \<and> local_lookup deep_tree [''a'', ''b'', ''c.txt''] = Some (RegFile [99])
   \<and> local_lookup deep_tree [''a'', ''b''] = Some (Directory [(''c.txt'', RegFile [99])])
   \<and> \<not> raises (fix_loop (0, 0, empty_site) deep_tree)
   \<and> succeeded (fix_loop (0, 0, empty_site) deep_tree) = 1
   \<and> attempted (fix_loop (0, 0, empty_site) deep_tree) = 1
   \<and> lookup (final_world (fix_loop (0, 0, empty_site) deep_tree)) (site_root @ [''a'']) = Some RDir
   \<and> lookup (final_world (fix_loop (0, 0, empty_site) deep_tree)) (site_root @ [''a'', ''b'']) = None
   \<and> lookup (final_world (fix_loop (0, 0, empty_site) deep_tree))
        (site_root @ [''a'', ''b'', ''c.txt'']) = None"
proof -
  have "wf_entries deep_tree \<and> readable_entries deep_tree
   \<and> local_lookup deep_tree [''a'', ''b'', ''c.txt''] = Some (RegFile [99])
   \<and> local_lookup deep_tree [''a'', ''b''] = Some (Directory [(''c.txt'', RegFile [99])])
   \<and> \<not> raises (fix_loop (0, 0, empty_site) deep_tree)
   \<and> succeeded (fix_loop (0, 0, empty_site) deep_tree) = 1
   \<and> attempted (fix_loop (0, 0, empty_site) deep_tree) = 1
   \<and> lookup (final_world (fix_loop (0, 0, empty_site) deep_tree)) (site_root @ [''a'']) = Some RDir
   \<and> lookup (final_world (fix_loop (0, 0, empty_site) deep_tree)) (site_root @ [''a'', ''b'']) = None
   \<and> lookup (final_world (fix_loop (0, 0, empty_site) deep_tree))
        (site_root @ [''a'', ''b'', ''c.txt'']) = None"
    by code_simp
  with empty_site_facts(1,2) show ?thesis by simp
qed

text \<open>
  Claim C1, amended. Take a local tree without per-item failures (every entry can be
  probed, every file opens, every directory lists, and the names are those of a directory
  listing), a server that refuses nothing, and a remote root with nothing below it. Then
  the loop of \<^verbatim>\<open>deploy-staging.py\<close> ends, and below the remote root the server holds
  exactly the image of the tree: at every path, at any depth, a file with the bytes of the
  local file, a directory for a local directory, and nothing where the tree has nothing or
  an entry that is neither; the rest of the store is as it was. The loop of
  \<^verbatim>\<open>fix-mylzip-redirect.py\<close> ends too, and leaves the image of the tree cut after the
  files of its top-level directories.
\<close>

theorem sync_copies_tree:
  assumes "accepting w" and "remote_empty w" and "wf_entries es" and "readable_entries es"
  shows "\<not> raises (deploy_loop lp (0, 0, w) es)
         \<and> (\<forall>ps. ps \<noteq> [] \<longrightarrow>
              lookup (final_world (deploy_loop lp (0, 0, w) es)) (cwd w @ ps) = remote_image es ps)
         \<and> (\<forall>ps b. local_lookup es ps = Some (RegFile b) \<longrightarrow>
              lookup (final_world (deploy_loop lp (0, 0, w) es)) (cwd w @ ps) = Some (RFile b))
         \<and> (\<forall>ps cs. local_lookup es ps = Some (Directory cs) \<longrightarrow>
              lookup (final_world (deploy_loop lp (0, 0, w) es)) (cwd w @ ps) = Some RDir)
         \<and> (\<forall>k. \<not> strict_prefix (cwd w) k \<longrightarrow>
              lookup (final_world (deploy_loop lp (0, 0, w) es)) k = lookup w k)
         \<and> \<not> raises (fix_loop (0, 0, w) es)
         \<and> (\<forall>ps. ps \<noteq> [] \<longrightarrow>
              lookup (final_world (fix_loop (0, 0, w) es)) (cwd w @ ps)
                = remote_image (two_levels es) ps)
         \<and> (\<forall>k. \<not> strict_prefix (cwd w) k \<longrightarrow>
              lookup (final_world (fix_loop (0, 0, w) es)) k = lookup w k)"
proof -
  let ?d = "final_world (deploy_loop lp (0, 0, w) es)"
  let ?f = "final_world (fix_loop (0, 0, w) es)"
  have v: "\<forall>n \<in> fst ` set es. vacant w (cwd w @ [n])"
    using remote_empty_vacant [OF assms(2)] by blast
  from deploy_loop_copies [OF assms(1,3,4) v, of lp 0 0]
  have a: "\<not> raises (deploy_loop lp (0, 0, w) es)"
    and u: "uploaded w ?d (image_entries (cwd w) es)" by blast+
  note b = copies_pointwise [OF assms(2,3) u]
  have c: "\<forall>ps b. local_lookup es ps = Some (RegFile b) \<longrightarrow> lookup ?d (cwd w @ ps) = Some (RFile b)"
    using b(1) remote_image_file [of es] by metis
  have d: "\<forall>ps cs. local_lookup es ps = Some (Directory cs) \<longrightarrow> lookup ?d (cwd w @ ps) = Some RDir"
    using b(1) remote_image_directory [of es] by metis
  from fix_loop_copies [OF assms(1,3,4) v, of 0 0]
  have e: "\<not> raises (fix_loop (0, 0, w) es)"
    and u': "uploaded w ?f (image_entries (cwd w) (two_levels es))" by blast+
  note f = copies_pointwise [OF assms(2) wf_entries_two_levels [OF assms(3)] u']
  from a b c d e f show ?thesis by blast
qed

theorem sync_copies_tree_witness:
  "accepting empty_site \<and> remote_empty empty_site
   \<and> wf_entries deep_tree \<and> readable_entries deep_tree
   \<and> local_lookup deep_tree [''a'', ''b'', ''c.txt''] = Some (RegFile [99])
   \<and> \<not> raises (deploy_loop local_root (0, 0, empty_site) deep_tree)
   \<and> lookup (final_world (deploy_loop local_root (0, 0, empty_site) deep_tree))
        (site_root @ [''a'', ''b'', ''c.txt'']) = Some (RFile [99])
   \<and> lookup (final_world (deploy_loop local_root (0, 0, empty_site) deep_tree))
        (site_root @ [''a'', ''b'']) = Some RDir
   \<and> lookup (final_world (fix_loop (0, 0, empty_site) deep_tree))
        (site_root @ [''a'', ''b'', ''c.txt'']) = None"
proof -
  have t: "wf_entries deep_tree" "readable_entries deep_tree"
    "local_lookup deep_tree [''a'', ''b'', ''c.txt''] = Some (RegFile [99])"
    "local_lookup deep_tree [''a'', ''b''] = Some (Directory [(''c.txt'', RegFile [99])])"
    "remote_image (two_levels deep_tree) [''a'', ''b'', ''c.txt''] = None"
    by code_simp+
  note s = sync_copies_tree [OF empty_site_facts(1,2) t(1,2), of local_root,
      unfolded empty_site_facts(3)]
  from s t(3) have "lookup (final_world (deploy_loop local_root (0, 0, empty_site) deep_tree))
        (site_root @ [''a'', ''b'', ''c.txt'']) = Some (RFile [99])" by blast
  moreover from s t(4) have "lookup (final_world (deploy_loop local_root (0, 0, empty_site) deep_tree))
        (site_root @ [''a'', ''b'']) = Some RDir" by blast
  moreover from s t(5) have "lookup (final_world (fix_loop (0, 0, empty_site) deep_tree))
        (site_root @ [''a'', ''b'', ''c.txt'']) = None" by auto
  moreover from s have "\<not> raises (deploy_loop local_root (0, 0, empty_site) deep_tree)" by blast
  ultimately show ?thesis using empty_site_facts(1,2) t by blast
qed

end
